theory Spec2Isabelle
  imports Complex_Main "HOL-Library.Char_ord" "HOL-Library.List_Lexorder" "HOL-Library.Multiset"
    "HOL-Library.Log_Nat"
begin

section \<open>Strings and the store's text functions\<close>

text \<open>
  A JavaScript or SQL text value is a \<^typ>\<open>string\<close>: a list of code units below 256.
  The order on strings (used by \<open>ORDER BY\<close>) is the lexicographic order on code units,
  which is what SQLite's default BINARY collation computes.
\<close>

definition code :: "char \<Rightarrow> nat" where
  "code c = of_char c"

text \<open>SQLite's built-in \<open>LOWER\<close>: only the letters A to Z are folded.\<close>

definition lower_char :: "char \<Rightarrow> char" where
  "lower_char c = (if 65 \<le> code c \<and> code c \<le> 90 then char_of (code c + 32) else c)"

definition LOWER :: "string \<Rightarrow> string" where
  "LOWER s = map lower_char s"

text \<open>\<open>String.prototype.charAt\<close>: the empty string outside the range.\<close>

definition charAt :: "string \<Rightarrow> int \<Rightarrow> string" where
  "charAt s i = (if 0 \<le> i \<and> i < int (length s) then [s ! nat i] else [])"

text \<open>JavaScript truthiness of an optional string: \<open>undefined\<close> and \<open>''\<close> are falsy.\<close>

definition falsy :: "string option \<Rightarrow> bool" where
  "falsy x = (x = None \<or> x = Some [])"

section \<open>Entity rows and the database\<close>

text \<open>
  The three tables of \<open>initializeTables\<close>. Column names carry the prefix of their table
  (\<open>u_\<close>, \<open>c_\<close>, \<open>m_\<close>); dates are stored as their ISO text.
\<close>

record User =
  u_ID :: int
  u_User_ID :: string
  u_GoogleUserId :: string
  u_Email :: string
  u_Role :: string
  u_Status :: string
  u_CreatedAt :: string
  u_UpdatedAt :: string

record Chapter =
  c_ID :: int
  c_Chapter_Id :: string
  c_Chapter_Name :: string
  c_Chapter_Description :: string
  c_Created_By :: string
  c_Status :: string
  c_CreatedAt :: string
  c_UpdatedAt :: string

record Membership =
  m_ID :: int
  m_User_ID :: string
  m_Chapter_Id :: string
  m_Chapter_Rank :: string
  m_Chapter_Status :: string
  m_Warrior_Name :: string
  m_CreatedAt :: string
  m_UpdatedAt :: string

text \<open>
  A table is the list of its rows in insertion order. \<open>memberships_seq\<close> is the
  AUTOINCREMENT counter of the memberships table (the largest row id ever handed out).
\<close>

record database =
  users :: "User list"
  chapters :: "Chapter list"
  memberships :: "Membership list"
  memberships_seq :: int

section \<open>Numbers\<close>

text \<open>
  A JavaScript number is an IEEE 754 double: NaN, one of the two infinities, or a finite
  value, given here by the real it stands for. Negative zero is identified with zero (both
  are falsy, print as \<open>0\<close> and bind as the integer 0). Every arithmetic result is the exact
  result rounded to the nearest double, ties to the even significand; \<open>fl\<close> is that
  rounding. \<open>binade a\<close> is the exponent \<open>e\<close> with \<open>2^e \<le> a < 2^(e+1)\<close>.
\<close>

datatype number = NaN | PosInfinity | NegInfinity | Fin real

definition binade :: "real \<Rightarrow> int" where
  "binade a = (if 1 \<le> a then bitlen \<lfloor>a\<rfloor> - 1 else - bitlen (\<lceil>1 / a\<rceil> - 1))"

definition round_half_even :: "real \<Rightarrow> int" where
  "round_half_even q =
     (let f = \<lfloor>q\<rfloor>; d = q - of_int f
      in if d < 1 / 2 then f else if 1 / 2 < d then f + 1 else if even f then f else f + 1)"

definition fl :: "real \<Rightarrow> number" where
  "fl x =
     (if x = 0 then Fin 0
      else
        let a = \<bar>x\<bar>;
            e = max (binade a) (- 1022);
            ulp = 2 powi (e - 52);
            y = of_int (round_half_even (a / ulp)) * ulp
        in if 2 ^ 1024 \<le> y then (if 0 < x then PosInfinity else NegInfinity)
           else Fin (sgn x * y))"

fun minus_number :: "number \<Rightarrow> number \<Rightarrow> number" where
  "minus_number (Fin a) (Fin b) = fl (a - b)"
| "minus_number NaN _ = NaN"
| "minus_number _ NaN = NaN"
| "minus_number PosInfinity PosInfinity = NaN"
| "minus_number NegInfinity NegInfinity = NaN"
| "minus_number PosInfinity _ = PosInfinity"
| "minus_number NegInfinity _ = NegInfinity"
| "minus_number (Fin a) PosInfinity = NegInfinity"
| "minus_number (Fin a) NegInfinity = PosInfinity"

definition signed_infinity :: "bool \<Rightarrow> number" where
  "signed_infinity positive = (if positive then PosInfinity else NegInfinity)"

fun times_number :: "number \<Rightarrow> number \<Rightarrow> number" where
  "times_number (Fin a) (Fin b) = fl (a * b)"
| "times_number NaN _ = NaN"
| "times_number _ NaN = NaN"
| "times_number PosInfinity (Fin b) = (if b = 0 then NaN else signed_infinity (0 < b))"
| "times_number NegInfinity (Fin b) = (if b = 0 then NaN else signed_infinity (b < 0))"
| "times_number (Fin a) PosInfinity = (if a = 0 then NaN else signed_infinity (0 < a))"
| "times_number (Fin a) NegInfinity = (if a = 0 then NaN else signed_infinity (a < 0))"
| "times_number PosInfinity PosInfinity = PosInfinity"
| "times_number NegInfinity NegInfinity = PosInfinity"
| "times_number PosInfinity NegInfinity = NegInfinity"
| "times_number NegInfinity PosInfinity = NegInfinity"

fun divide_number :: "number \<Rightarrow> number \<Rightarrow> number" where
  "divide_number (Fin a) (Fin b) =
     (if b = 0 then (if a = 0 then NaN else signed_infinity (0 < a)) else fl (a / b))"
| "divide_number NaN _ = NaN"
| "divide_number _ NaN = NaN"
| "divide_number (Fin a) _ = Fin 0"
| "divide_number PosInfinity (Fin b) = signed_infinity (0 \<le> b)"
| "divide_number NegInfinity (Fin b) = signed_infinity (b < 0)"
| "divide_number _ _ = NaN"

fun Math_ceil :: "number \<Rightarrow> number" where
  "Math_ceil (Fin x) = Fin (of_int \<lceil>x\<rceil>)"
| "Math_ceil v = v"

text \<open>\<open>Number(n)\<close> of a row count.\<close>

definition Number :: "nat \<Rightarrow> number" where
  "Number n = fl (real n)"

section \<open>Responses\<close>

record pagination =
  total :: number
  page :: number
  limit :: number
  totalPages :: number

datatype body =
    Message bool string
  | Error string
  | MembershipData "Membership option"
  | Availability bool string
  | ChapterJson Chapter
  | ChapterPage "(string \<times> string) list" pagination

type_synonym response = "nat \<times> body"

section \<open>Chapters controller\<close>

subsection \<open>generateChapterId\<close>

definition chars :: string where
  "chars = ''abcdefghijklmnopqrstuvwxyz1234567890''"

text \<open>
  \<open>Math.random\<close> is a sequence \<open>rnd\<close> of reals; the \<open>i\<close>-th iteration of the loop
  reads \<open>rnd i\<close>, and its product with the length is exact. The loop
  \<open>for (let i = 0; i < 6; i++)\<close> is the recursion below.
\<close>

function generateChapterId_loop :: "(nat \<Rightarrow> real) \<Rightarrow> nat \<Rightarrow> string \<Rightarrow> string" where
  "generateChapterId_loop rnd i result =
     (if i < 6
      then generateChapterId_loop rnd (i + 1)
             (result @ charAt chars \<lfloor>rnd i * real (length chars)\<rfloor>)
      else result)"
  by pat_completeness auto
termination
  by (relation "measure (\<lambda>(rnd, i, result). 6 - i)") auto

definition generateChapterId :: "(nat \<Rightarrow> real) \<Rightarrow> string" where
  "generateChapterId rnd = generateChapterId_loop rnd 0 []"

subsection \<open>parseInt\<close>

text \<open>
  \<open>parseInt(string)\<close> with no radix, as ECMAScript defines it: \<open>ToString\<close> of the
  argument, leading white space dropped, an optional sign, an optional \<open>0x\<close> prefix
  selecting radix 16, then the longest prefix of digits of the radix. Without a digit the
  result is NaN, otherwise the double nearest to the integer the digits denote (the
  language lets an engine approximate beyond 20 significant digits; Node's engine rounds
  the exact integer).
\<close>

definition ToString :: "string option \<Rightarrow> string" where
  "ToString x = (case x of None \<Rightarrow> ''undefined'' | Some s \<Rightarrow> s)"

definition isWhiteSpace :: "char \<Rightarrow> bool" where
  "isWhiteSpace c = (code c \<in> {9, 10, 11, 12, 13, 32, 160})"

definition digitValue :: "char \<Rightarrow> nat option" where
  "digitValue c =
     (if 48 \<le> code c \<and> code c \<le> 57 then Some (code c - 48)
      else if 97 \<le> code c \<and> code c \<le> 122 then Some (code c - 87)
      else if 65 \<le> code c \<and> code c \<le> 90 then Some (code c - 55)
      else None)"

definition isRadixDigit :: "nat \<Rightarrow> char \<Rightarrow> bool" where
  "isRadixDigit R c = (case digitValue c of None \<Rightarrow> False | Some d \<Rightarrow> d < R)"

definition mathInt :: "nat \<Rightarrow> string \<Rightarrow> int" where
  "mathInt R Z = foldl (\<lambda>acc c. acc * int R + int (the (digitValue c))) 0 Z"

definition parseInt :: "string \<Rightarrow> number" where
  "parseInt inputString =
     (let S0 = dropWhile isWhiteSpace inputString;
          sign = (if S0 \<noteq> [] \<and> hd S0 = CHR ''-'' then - 1 else 1 :: int);
          S1 = (if S0 \<noteq> [] \<and> (hd S0 = CHR ''+'' \<or> hd S0 = CHR ''-'') then tl S0 else S0);
          hex = (take 2 S1 = ''0x'' \<or> take 2 S1 = ''0X'');
          R = (if hex then 16 else 10);
          S2 = (if hex then drop 2 S1 else S1);
          Z = takeWhile (isRadixDigit R) S2
      in if Z = [] then NaN else fl (of_int (sign * mathInt R Z)))"

text \<open>\<open>x || d\<close> on a number: NaN and 0 are falsy.\<close>

definition orElse :: "number \<Rightarrow> number \<Rightarrow> number" where
  "orElse x d = (if x = NaN \<or> x = Fin 0 then d else x)"

subsection \<open>getChapters\<close>

text \<open>
  \<open>ORDER BY Chapter_Name\<close>: rows sorted by name, rows of equal name kept in table order.
  \<open>LIMIT ? OFFSET ?\<close> as SQLite evaluates it: a negative offset is 0, a negative limit
  is no limit.
\<close>

definition ORDER_BY_Chapter_Name :: "Chapter list \<Rightarrow> Chapter list" where
  "ORDER_BY_Chapter_Name cs = sort_key c_Chapter_Name cs"

definition LIMIT_OFFSET :: "int \<Rightarrow> int \<Rightarrow> 'a list \<Rightarrow> 'a list" where
  "LIMIT_OFFSET n off rows =
     (let rest = drop (nat off) rows in if n < 0 then rest else take (nat n) rest)"

text \<open>
  An argument of \<open>LIMIT ? OFFSET ?\<close>: the client refuses NaN and the infinities, and the
  store refuses a number that is not an integer strictly between \<open>-2^63\<close> and \<open>2^63\<close>
  (datatype mismatch). \<open>None\<close> is that failure; it ends in the handler's \<open>catch\<close>.
\<close>

definition bind_integer :: "number \<Rightarrow> int option" where
  "bind_integer v =
     (case v of
        Fin x \<Rightarrow> if of_int \<lfloor>x\<rfloor> = x \<and> - (2 ^ 63) < x \<and> x < 2 ^ 63 then Some \<lfloor>x\<rfloor> else None
      | _ \<Rightarrow> None)"

definition getChapters :: "database \<Rightarrow> string option \<Rightarrow> string option \<Rightarrow> response" where
  "getChapters db query_page query_limit =
     (let page = orElse (parseInt (ToString query_page)) (Fin 1);
          limit = orElse (parseInt (ToString query_limit)) (Fin 50);
          offset = times_number (minus_number page (Fin 1)) limit;
          total = Number (length (chapters db))
      in case (bind_integer limit, bind_integer offset) of
           (Some n, Some off) \<Rightarrow>
             (200, ChapterPage
                (map (\<lambda>c. (c_Chapter_Id c, c_Chapter_Name c))
                   (LIMIT_OFFSET n off (ORDER_BY_Chapter_Name (chapters db))))
                \<lparr>total = total, page = page, limit = limit,
                 totalPages = Math_ceil (divide_number total limit)\<rparr>)
         | _ \<Rightarrow> (500, Error ''Failed to fetch chapters''))"

subsection \<open>createChapter\<close>

record chapter_body =
  Chapter_Name :: string
  Chapter_Description :: string
  Created_By :: string

text \<open>
  The \<open>ChapterModel\<close> constructor: every field is \<open>data.field || default\<close>. \<open>uuid\<close> is
  the value \<open>crypto.randomUUID()\<close> would give.
\<close>

definition ChapterModel :: "string \<Rightarrow> Chapter \<Rightarrow> Chapter" where
  "ChapterModel uuid data =
     \<lparr>c_ID = (if c_ID data = 0 then 0 else c_ID data),
      c_Chapter_Id = (if c_Chapter_Id data = [] then uuid else c_Chapter_Id data),
      c_Chapter_Name = (if c_Chapter_Name data = [] then [] else c_Chapter_Name data),
      c_Chapter_Description =
        (if c_Chapter_Description data = [] then [] else c_Chapter_Description data),
      c_Created_By = (if c_Created_By data = [] then [] else c_Created_By data),
      c_Status = (if c_Status data = [] then ''pending'' else c_Status data),
      c_CreatedAt = c_CreatedAt data,
      c_UpdatedAt = c_UpdatedAt data\<rparr>"

text \<open>
  \<open>INSERT INTO chapters\<close> with an explicit ID: the store rejects the row when the
  primary key \<open>ID\<close> or the UNIQUE column \<open>Chapter_Id\<close> is already present.
\<close>

definition insert_chapter :: "database \<Rightarrow> Chapter \<Rightarrow> database option" where
  "insert_chapter db c =
     (if \<exists>x \<in> set (chapters db). c_ID x = c_ID c \<or> c_Chapter_Id x = c_Chapter_Id c
      then None
      else Some (db\<lparr>chapters := chapters db @ [c]\<rparr>))"

text \<open>
  \<open>rnd\<close> is the sequence of \<open>Math.random\<close> results, \<open>createdAt\<close> and \<open>updatedAt\<close> the
  two \<open>new Date()\<close> values. The result is the response and the database afterwards.
\<close>

definition createChapter ::
  "(nat \<Rightarrow> real) \<Rightarrow> string \<Rightarrow> string \<Rightarrow> string \<Rightarrow> database \<Rightarrow> chapter_body
     \<Rightarrow> response \<times> database" where
  "createChapter rnd uuid createdAt updatedAt db req =
     (let Chapter_Id = generateChapterId rnd;
          existingName = filter (\<lambda>c. LOWER (c_Chapter_Name c) = LOWER (Chapter_Name req))
                           (chapters db)
      in if length existingName > 0
         then ((400, Error ''Chapter name already exists (case-insensitive)''), db)
         else
           let existingId = filter (\<lambda>c. c_Chapter_Id c = Chapter_Id) (chapters db)
           in if length existingId > 0
              then (let newChapterId = generateChapterId (\<lambda>i. rnd (i + 6))
                    in ((400, Error ''Generated chapter ID already exists, please try again''),
                        db))
              else
                let lastChapter = take 1 (rev (sort_key c_ID (chapters db)));
                    lastId = (if length lastChapter > 0 then c_ID (hd lastChapter) else 0);
                    nextId = lastId + 1;
                    chapter = ChapterModel uuid
                      \<lparr>c_ID = nextId, c_Chapter_Id = Chapter_Id,
                       c_Chapter_Name = Chapter_Name req,
                       c_Chapter_Description = Chapter_Description req,
                       c_Created_By = Created_By req, c_Status = ''pending'',
                       c_CreatedAt = createdAt, c_UpdatedAt = updatedAt\<rparr>
                in case insert_chapter db chapter of
                     None \<Rightarrow> ((500, Error ''Failed to create chapter''), db)
                   | Some db' \<Rightarrow> ((201, ChapterJson chapter), db'))"

section \<open>Memberships controller\<close>

record membership_body =
  User_ID :: "string option"
  Chapter_Id :: "string option"
  Chapter_Rank :: "string option"
  Warrior_Name :: "string option"

text \<open>
  The \<open>MembershipModel\<close> constructor on the five fields \<open>createMembership\<close> passes;
  \<open>createdAt\<close> and \<open>updatedAt\<close> are its two \<open>new Date()\<close> values.
\<close>

definition MembershipModel ::
  "string \<Rightarrow> string \<Rightarrow> string \<Rightarrow> string \<Rightarrow> string \<Rightarrow> string \<Rightarrow> string
     \<Rightarrow> Membership" where
  "MembershipModel user chapter rank status name createdAt updatedAt =
     \<lparr>m_ID = 0,
      m_User_ID = (if user = [] then [] else user),
      m_Chapter_Id = (if chapter = [] then [] else chapter),
      m_Chapter_Rank = (if rank = [] then ''member'' else rank),
      m_Chapter_Status = (if status = [] then ''pending'' else status),
      m_Warrior_Name = (if name = [] then [] else name),
      m_CreatedAt = createdAt,
      m_UpdatedAt = updatedAt\<rparr>"

text \<open>
  \<open>INSERT INTO memberships\<close> without an ID. The schema rejects the row when the pair
  \<open>(User_ID, Chapter_Id)\<close> is present (UNIQUE) or when a reference has no parent row
  (FOREIGN KEY, with \<open>PRAGMA foreign_keys = ON\<close>). AUTOINCREMENT hands out one more than
  the largest id so far.
\<close>

definition next_membership_id :: "database \<Rightarrow> int" where
  "next_membership_id db = foldr max (map m_ID (memberships db)) (memberships_seq db) + 1"

definition insert_membership :: "database \<Rightarrow> Membership \<Rightarrow> database option" where
  "insert_membership db m =
     (if (\<exists>x \<in> set (memberships db). m_User_ID x = m_User_ID m \<and> m_Chapter_Id x = m_Chapter_Id m)
         \<or> \<not> (\<exists>u \<in> set (users db). u_User_ID u = m_User_ID m)
         \<or> \<not> (\<exists>c \<in> set (chapters db). c_Chapter_Id c = m_Chapter_Id m)
      then None
      else Some (db\<lparr>memberships := memberships db @ [m\<lparr>m_ID := next_membership_id db\<rparr>],
                   memberships_seq := next_membership_id db\<rparr>))"

definition first_row :: "'a list \<Rightarrow> 'a option" where
  "first_row rows = (case rows of [] \<Rightarrow> None | r # _ \<Rightarrow> Some r)"

definition createMembership ::
  "string \<Rightarrow> string \<Rightarrow> database \<Rightarrow> membership_body \<Rightarrow> response \<times> database" where
  "createMembership createdAt updatedAt db req =
     (if falsy (User_ID req) \<or> falsy (Chapter_Id req) \<or> falsy (Warrior_Name req)
      then ((400, Message False
              ''Missing required fields: User_ID, Chapter_Id, and Warrior_Name are required''),
            db)
      else
        let user = the (User_ID req); chapter = the (Chapter_Id req);
            name = the (Warrior_Name req);
            userExists = filter (\<lambda>u. u_User_ID u = user) (users db)
        in if length userExists = 0 then ((404, Message False ''User not found''), db)
        else
          let chapterExists = filter (\<lambda>c. c_Chapter_Id c = chapter) (chapters db)
          in if length chapterExists = 0 then ((404, Message False ''Chapter not found''), db)
          else
            let existingMembership =
                  filter (\<lambda>m. m_User_ID m = user \<and> m_Chapter_Id m = chapter) (memberships db)
            in if length existingMembership > 0
               then ((400, Message False ''User is already a member of this chapter''), db)
            else
              let existingWarriorName =
                    filter (\<lambda>m. LOWER (m_Warrior_Name m) = LOWER name) (memberships db)
              in if length existingWarriorName > 0
                 then ((400, Message False ''Warrior name is already taken''), db)
              else
                let membership = MembershipModel user chapter
                      (if falsy (Chapter_Rank req) then ''member'' else the (Chapter_Rank req))
                      ''pending'' name createdAt updatedAt
                in case insert_membership db membership of
                     None \<Rightarrow> ((500, Message False ''Error creating membership''), db)
                   | Some db' \<Rightarrow>
                       let createdMembership =
                             filter (\<lambda>m. m_User_ID m = user \<and> m_Chapter_Id m = chapter)
                               (memberships db')
                       in ((201, MembershipData (first_row createdMembership)), db'))"


section \<open>Users controller\<close>

text \<open>
  The test \<open>/^[0-9a-f]{8}-[0-9a-f]{4}-[0-9a-f]{4}-[0-9a-f]{4}-[0-9a-f]{12}$/i\<close>: 36
  characters, five groups of hexadecimal digits of either case, a hyphen between them.
\<close>

definition isHex :: "char \<Rightarrow> bool" where
  "isHex c = isRadixDigit 16 c"

definition isUUID :: "string \<Rightarrow> bool" where
  "isUUID s =
     (length s = 36 \<and>
      list_all isHex (take 8 s) \<and> s ! 8 = CHR ''-'' \<and>
      list_all isHex (take 4 (drop 9 s)) \<and> s ! 13 = CHR ''-'' \<and>
      list_all isHex (take 4 (drop 14 s)) \<and> s ! 18 = CHR ''-'' \<and>
      list_all isHex (take 4 (drop 19 s)) \<and> s ! 23 = CHR ''-'' \<and>
      list_all isHex (drop 24 s))"

datatype user_query = ByEmail | ByUser_ID | ByGoogleUserId

definition classify :: "string \<Rightarrow> user_query" where
  "classify identifier =
     (if CHR ''@'' \<in> set identifier then ByEmail
      else if isUUID identifier then ByUser_ID
      else ByGoogleUserId)"

fun matches :: "user_query \<Rightarrow> string \<Rightarrow> User \<Rightarrow> bool" where
  "matches ByEmail arg u = (u_Email u = arg)"
| "matches ByUser_ID arg u = (u_User_ID u = arg)"
| "matches ByGoogleUserId arg u = (u_GoogleUserId u = arg)"

text \<open>
  \<open>DELETE FROM users WHERE ...\<close>: with foreign keys on, the store rejects the statement
  when a membership references one of the rows to delete.
\<close>

definition delete_users :: "database \<Rightarrow> (User \<Rightarrow> bool) \<Rightarrow> database option" where
  "delete_users db P =
     (if \<exists>u \<in> set (users db). P u \<and> (\<exists>m \<in> set (memberships db). m_User_ID m = u_User_ID u)
      then None
      else Some (db\<lparr>users := filter (\<lambda>u. \<not> P u) (users db)\<rparr>))"

definition deleteUser :: "database \<Rightarrow> string \<Rightarrow> response \<times> database" where
  "deleteUser db identifier =
     (let query = classify identifier;
          existingUser = filter (matches query identifier) (users db)
      in if length existingUser = 0 then ((404, Error ''User not found''), db)
         else case delete_users db (matches query identifier) of
                None \<Rightarrow> ((500, Message False ''Internal server error while deleting user''), db)
              | Some db' \<Rightarrow> ((200, Message True ''User deleted successfully''), db'))"

section \<open>Properties named by the specification\<close>

text \<open>The pattern \<open>[a-z0-9]\<close> on one character.\<close>

definition lowercase_alnum :: "char \<Rightarrow> bool" where
  "lowercase_alnum c = (97 \<le> code c \<and> code c \<le> 122 \<or> 48 \<le> code c \<and> code c \<le> 57)"

text \<open>The current maximum numeric id of the chapters table plus one, or 1 when it is empty.\<close>

definition next_numeric_id :: "database \<Rightarrow> int" where
  "next_numeric_id db = (if chapters db = [] then 1 else Max (c_ID ` set (chapters db)) + 1)"

text \<open>
  Two texts are equal ignoring case when they have the same length and, position by
  position, the same character or the upper-case and lower-case form of one of the letters
  A to Z (the letters the store's \<open>LOWER\<close> folds).
\<close>

definition upper_of :: "char \<Rightarrow> char \<Rightarrow> bool" where
  "upper_of u l = (65 \<le> code u \<and> code u \<le> 90 \<and> code l = code u + 32)"

definition same_ignoring_case :: "char \<Rightarrow> char \<Rightarrow> bool" where
  "same_ignoring_case a b = (a = b \<or> upper_of a b \<or> upper_of b a)"

definition equal_ignoring_case :: "string \<Rightarrow> string \<Rightarrow> bool" where
  "equal_ignoring_case s t = list_all2 same_ignoring_case s t"

text \<open>The four conditions the membership checks decide.\<close>

definition user_exists :: "database \<Rightarrow> string \<Rightarrow> bool" where
  "user_exists db u = (\<exists>x \<in> set (users db). u_User_ID x = u)"

definition chapter_exists :: "database \<Rightarrow> string \<Rightarrow> bool" where
  "chapter_exists db c = (\<exists>x \<in> set (chapters db). c_Chapter_Id x = c)"

definition is_member :: "database \<Rightarrow> string \<Rightarrow> string \<Rightarrow> bool" where
  "is_member db u c = (\<exists>m \<in> set (memberships db). m_User_ID m = u \<and> m_Chapter_Id m = c)"

definition name_taken :: "database \<Rightarrow> string \<Rightarrow> bool" where
  "name_taken db n = (\<exists>m \<in> set (memberships db). equal_ignoring_case (m_Warrior_Name m) n)"

text \<open>
  The membership invariant: the pairs (user reference, chapter reference) are distinct,
  and both references of every membership resolve to existing rows.
\<close>

definition membership_invariant :: "database \<Rightarrow> bool" where
  "membership_invariant db =
     (distinct (map (\<lambda>m. (m_User_ID m, m_Chapter_Id m)) (memberships db)) \<and>
      (\<forall>m \<in> set (memberships db).
         user_exists db (m_User_ID m) \<and> chapter_exists db (m_Chapter_Id m)))"

section \<open>Example states\<close>

definition no_chapters :: database where
  "no_chapters = \<lparr>users = [], chapters = [], memberships = [], memberships_seq = 0\<rparr>"

definition alpha_chapter :: Chapter where
  "alpha_chapter = \<lparr>c_ID = 1, c_Chapter_Id = ''ssssss'', c_Chapter_Name = ''Alpha'',
     c_Chapter_Description = ''d'', c_Created_By = ''u1'', c_Status = ''pending'',
     c_CreatedAt = ''2024-01-01T00:00:00.000Z'', c_UpdatedAt = ''2024-01-01T00:00:00.000Z''\<rparr>"

definition one_chapter :: database where
  "one_chapter = \<lparr>users = [], chapters = [alpha_chapter], memberships = [], memberships_seq = 0\<rparr>"

definition Alpha :: chapter_body where
  "Alpha = \<lparr>Chapter_Name = ''Alpha'', Chapter_Description = ''d'', Created_By = ''u1''\<rparr>"


definition Beta :: chapter_body where
  "Beta = \<lparr>Chapter_Name = ''Beta'', Chapter_Description = ''d'', Created_By = ''u1''\<rparr>"

definition alice :: User where
  "alice = \<lparr>u_ID = 1, u_User_ID = ''u1'', u_GoogleUserId = ''google1'', u_Email = ''alice@example.com'',
     u_Role = ''user'', u_Status = ''active'',
     u_CreatedAt = ''2024-01-01T00:00:00.000Z'', u_UpdatedAt = ''2024-01-01T00:00:00.000Z''\<rparr>"

definition bob :: User where
  "bob = \<lparr>u_ID = 2, u_User_ID = ''u2'', u_GoogleUserId = ''google2'', u_Email = ''bob@example.com'',
     u_Role = ''user'', u_Status = ''active'',
     u_CreatedAt = ''2024-01-01T00:00:00.000Z'', u_UpdatedAt = ''2024-01-01T00:00:00.000Z''\<rparr>"

definition no_members :: database where
  "no_members = \<lparr>users = [alice, bob], chapters = [alpha_chapter], memberships = [],
     memberships_seq = 0\<rparr>"

definition alice_joins :: membership_body where
  "alice_joins = \<lparr>User_ID = Some ''u1'', Chapter_Id = Some ''ssssss'', Chapter_Rank = None,
     Warrior_Name = Some ''TestWarrior''\<rparr>"

definition alice_membership :: Membership where
  "alice_membership = \<lparr>m_ID = 1, m_User_ID = ''u1'', m_Chapter_Id = ''ssssss'',
     m_Chapter_Rank = ''member'', m_Chapter_Status = ''pending'', m_Warrior_Name = ''TestWarrior'',
     m_CreatedAt = ''2024-01-03T00:00:00.000Z'', m_UpdatedAt = ''2024-01-03T00:00:00.000Z''\<rparr>"

definition one_member :: database where
  "one_member = \<lparr>users = [alice, bob], chapters = [alpha_chapter],
     memberships = [alice_membership], memberships_seq = 1\<rparr>"


definition bob_joins_renamed :: membership_body where
  "bob_joins_renamed = \<lparr>User_ID = Some ''u2'', Chapter_Id = Some ''ssssss'',
     Chapter_Rank = Some ''warrior'', Warrior_Name = Some ''Other''\<rparr>"

definition bob_membership :: Membership where
  "bob_membership = \<lparr>m_ID = 2, m_User_ID = ''u2'', m_Chapter_Id = ''ssssss'',
     m_Chapter_Rank = ''warrior'', m_Chapter_Status = ''pending'', m_Warrior_Name = ''Other'',
     m_CreatedAt = ''2024-01-04T00:00:00.000Z'', m_UpdatedAt = ''2024-01-04T00:00:00.000Z''\<rparr>"

definition beta_chapter :: Chapter where
  "beta_chapter = \<lparr>c_ID = 2, c_Chapter_Id = ''aaaaaa'', c_Chapter_Name = ''Beta'',
     c_Chapter_Description = ''d'', c_Created_By = ''u1'', c_Status = ''pending'',
     c_CreatedAt = ''2024-01-02T00:00:00.000Z'', c_UpdatedAt = ''2024-01-02T00:00:00.000Z''\<rparr>"

definition gamma_chapter :: Chapter where
  "gamma_chapter = \<lparr>c_ID = 3, c_Chapter_Id = ''zzzzzz'', c_Chapter_Name = ''Gamma'',
     c_Chapter_Description = ''d'', c_Created_By = ''u1'', c_Status = ''pending'',
     c_CreatedAt = ''2024-01-05T00:00:00.000Z'', c_UpdatedAt = ''2024-01-05T00:00:00.000Z''\<rparr>"

definition three_chapters :: database where
  "three_chapters = \<lparr>users = [], chapters = [gamma_chapter, alpha_chapter, beta_chapter],
     memberships = [], memberships_seq = 0\<rparr>"

definition carol :: User where
  "carol = \<lparr>u_ID = 3, u_User_ID = ''123e4567-e89b-12d3-A456-426614174000'',
     u_GoogleUserId = ''google3'', u_Email = ''carol@example.com'',
     u_Role = ''user'', u_Status = ''active'',
     u_CreatedAt = ''2024-01-01T00:00:00.000Z'', u_UpdatedAt = ''2024-01-01T00:00:00.000Z''\<rparr>"

definition three_users :: database where
  "three_users = \<lparr>users = [alice, bob, carol], chapters = [alpha_chapter],
     memberships = [alice_membership], memberships_seq = 1\<rparr>"

section \<open>Case-insensitive comparison\<close>

lemma code_inject: "code a = code b \<Longrightarrow> a = b"
  by (simp add: code_def)

lemma code_lower_char:
  "code (lower_char c) = (if 65 \<le> code c \<and> code c \<le> 90 then code c + 32 else code c)"
  by (simp add: lower_char_def code_def)

lemma lower_char_eq_iff: "lower_char a = lower_char b \<longleftrightarrow> same_ignoring_case a b"
proof
  assume "lower_char a = lower_char b"
  then have "code (lower_char a) = code (lower_char b)" by simp
  then show "same_ignoring_case a b"
    unfolding code_lower_char same_ignoring_case_def upper_of_def
    by (auto split: if_splits dest: code_inject)
next
  assume "same_ignoring_case a b"
  then have "code (lower_char a) = code (lower_char b)"
    unfolding code_lower_char same_ignoring_case_def upper_of_def
    by (auto split: if_splits)
  then show "lower_char a = lower_char b" by (rule code_inject)
qed

lemma LOWER_eq_iff: "LOWER s = LOWER t \<longleftrightarrow> equal_ignoring_case s t"
proof (induction s arbitrary: t)
  case Nil
  then show ?case by (simp add: LOWER_def equal_ignoring_case_def)
next
  case (Cons a s)
  show ?case
  proof (cases t)
    case Nil
    then show ?thesis by (simp add: LOWER_def equal_ignoring_case_def)
  next
    case (Cons b t')
    with Cons.IH [of t'] show ?thesis
      by (simp add: LOWER_def equal_ignoring_case_def lower_char_eq_iff)
  qed
qed

section \<open>Chapter creation\<close>

declare generateChapterId_loop.simps [simp del]

lemma chars_alnum: "list_all lowercase_alnum chars"
  by (simp add: chars_def lowercase_alnum_def code_def)

lemma charAt_random:
  assumes "0 \<le> r" "r < 1"
  shows "\<exists>c \<in> set chars. charAt chars \<lfloor>r * real (length chars)\<rfloor> = [c]"
proof -
  have len: "length chars = 36" by (simp add: chars_def)
  have lo: "0 \<le> \<lfloor>r * 36\<rfloor>" using assms by simp
  have "r * 36 < 36" using assms by simp
  then have hi: "\<lfloor>r * 36\<rfloor> < 36" by (simp add: floor_less_iff)
  have "nat \<lfloor>r * 36\<rfloor> < 36" using lo hi by linarith
  then have "nat \<lfloor>r * 36\<rfloor> < length chars" by (simp only: len)
  then have "chars ! nat \<lfloor>r * 36\<rfloor> \<in> set chars" by (rule nth_mem)
  with lo hi show ?thesis by (auto simp: charAt_def len)
qed

lemma generateChapterId_loop_shape:
  "i \<le> 6 \<Longrightarrow> (\<forall>j. i \<le> j \<and> j < 6 \<longrightarrow> 0 \<le> rnd j \<and> rnd j < 1) \<Longrightarrow>
   length (generateChapterId_loop rnd i result) = length result + (6 - i) \<and>
   set (generateChapterId_loop rnd i result) \<subseteq> set result \<union> set chars"
proof (induction rnd i result rule: generateChapterId_loop.induct)
  case (1 rnd i result)
  show ?case
  proof (cases "i < 6")
    case True
    then obtain c where c: "c \<in> set chars"
        "charAt chars \<lfloor>rnd i * real (length chars)\<rfloor> = [c]"
      using charAt_random [of "rnd i"] "1.prems" by auto
    have "length (generateChapterId_loop rnd (i + 1) (result @ [c])) =
            length (result @ [c]) + (6 - (i + 1)) \<and>
          set (generateChapterId_loop rnd (i + 1) (result @ [c])) \<subseteq> set (result @ [c]) \<union> set chars"
      using "1.IH" [OF True] True "1.prems" c by simp
    with True c show ?thesis
      by (subst generateChapterId_loop.simps, subst (2) generateChapterId_loop.simps) auto
  next
    case False
    with "1.prems" show ?thesis
      by (subst generateChapterId_loop.simps, subst (2) generateChapterId_loop.simps) simp
  qed
qed

lemma generateChapterId_shape:
  assumes "\<forall>i<6. 0 \<le> rnd i \<and> rnd i < 1"
  shows "length (generateChapterId rnd) = 6 \<and> list_all lowercase_alnum (generateChapterId rnd)"
proof -
  have "length (generateChapterId rnd) = 6 \<and> set (generateChapterId rnd) \<subseteq> set chars"
    using generateChapterId_loop_shape [of 0 rnd "[]"] assms
    by (simp add: generateChapterId_def)
  with chars_alnum show ?thesis
    by (auto simp: list_all_iff)
qed

lemma rows_exist: "(0 < length (filter P xs)) = (\<exists>x \<in> set xs. P x)"
  by (simp add: filter_empty_conv)

lemma rows_absent: "(length (filter P xs) = 0) = (\<not> (\<exists>x \<in> set xs. P x))"
  by (simp add: filter_empty_conv)

lemma sorted_last_Max:
  fixes ys :: "int list"
  shows "sorted ys \<Longrightarrow> ys \<noteq> [] \<Longrightarrow> last ys = Max (set ys)"
proof (induction ys)
  case Nil
  then show ?case by simp
next
  case (Cons y ys)
  show ?case
  proof (cases "ys = []")
    case True
    then show ?thesis by simp
  next
    case False
    with Cons have "last ys = Max (set ys)" by simp
    moreover have "y \<le> Max (set ys)"
      using Cons.prems False by (simp add: Max_ge_iff) (meson last_in_set)
    ultimately show ?thesis using False by (simp add: max_def)
  qed
qed

lemma ORDER_BY_ID_DESC_LIMIT_1:
  assumes "cs \<noteq> []"
  shows "c_ID (hd (take 1 (rev (sort_key c_ID cs)))) = Max (c_ID ` set cs)"
proof -
  let ?s = "sort_key c_ID cs"
  have ne: "?s \<noteq> []" using assms by (metis length_sort list.size(3) length_0_conv)
  have "hd (take 1 (rev ?s)) = last ?s"
    using ne by (cases "rev ?s") (auto simp: hd_rev [symmetric])
  then have "c_ID (hd (take 1 (rev ?s))) = last (map c_ID ?s)"
    using ne by (simp add: last_map)
  also have "\<dots> = Max (set (map c_ID ?s))"
    using ne by (intro sorted_last_Max) simp_all
  finally show ?thesis by simp
qed

lemma next_numeric_id_fresh: "x \<in> set (chapters db) \<Longrightarrow> c_ID x \<noteq> next_numeric_id db"
proof -
  assume x: "x \<in> set (chapters db)"
  then have le: "c_ID x \<le> Max (c_ID ` set (chapters db))" by simp
  from x have "chapters db \<noteq> []" by auto
  then have "next_numeric_id db = Max (c_ID ` set (chapters db)) + 1" by (simp add: next_numeric_id_def)
  with le show ?thesis by linarith
qed

lemma createChapter_name_taken:
  assumes "\<exists>c \<in> set (chapters db). LOWER (c_Chapter_Name c) = LOWER (Chapter_Name req)"
  shows "createChapter rnd uuid createdAt updatedAt db req =
           ((400, Error ''Chapter name already exists (case-insensitive)''), db)"
  using assms unfolding createChapter_def Let_def rows_exist by simp

lemma createChapter_id_taken:
  assumes "\<not> (\<exists>c \<in> set (chapters db). LOWER (c_Chapter_Name c) = LOWER (Chapter_Name req))"
    and "\<exists>c \<in> set (chapters db). c_Chapter_Id c = generateChapterId rnd"
  shows "createChapter rnd uuid createdAt updatedAt db req =
           ((400, Error ''Generated chapter ID already exists, please try again''), db)"
  using assms unfolding createChapter_def Let_def rows_exist by simp

lemma createChapter_inserts:
  fixes createdAt updatedAt :: string
  assumes rnd: "\<forall>i<6. 0 \<le> rnd i \<and> rnd i < 1"
    and name: "\<not> (\<exists>c \<in> set (chapters db). LOWER (c_Chapter_Name c) = LOWER (Chapter_Name req))"
    and ident: "\<not> (\<exists>c \<in> set (chapters db). c_Chapter_Id c = generateChapterId rnd)"
  defines "row \<equiv> \<lparr>c_ID = next_numeric_id db, c_Chapter_Id = generateChapterId rnd,
                   c_Chapter_Name = Chapter_Name req,
                   c_Chapter_Description = Chapter_Description req,
                   c_Created_By = Created_By req, c_Status = ''pending'',
                   c_CreatedAt = createdAt, c_UpdatedAt = updatedAt\<rparr>"
  shows "createChapter rnd uuid createdAt updatedAt db req =
           ((201, ChapterJson row), db\<lparr>chapters := chapters db @ [row]\<rparr>)"
proof -
  have gen: "generateChapterId rnd \<noteq> []"
    using generateChapterId_shape [OF rnd] by auto
  have last: "(if 0 < length (take 1 (rev (sort_key c_ID (chapters db))))
               then c_ID (hd (take 1 (rev (sort_key c_ID (chapters db))))) else 0) + 1 = next_numeric_id db"
  proof (cases "chapters db = []")
    case True
    then show ?thesis by (simp add: next_numeric_id_def)
  next
    case False
    then have "sort_key c_ID (chapters db) \<noteq> []"
      by (metis length_sort length_0_conv)
    with False ORDER_BY_ID_DESC_LIMIT_1 [OF False] show ?thesis
      by (simp add: next_numeric_id_def)
  qed
  have model: "ChapterModel uuid row = row"
    using gen by (simp add: ChapterModel_def row_def)
  have ins: "insert_chapter db row = Some (db\<lparr>chapters := chapters db @ [row]\<rparr>)"
    using ident next_numeric_id_fresh [of _ db] by (auto simp: insert_chapter_def row_def)
  show ?thesis
    using name ident
    unfolding createChapter_def Let_def rows_exist last
    by (simp add: model [unfolded row_def] ins [unfolded row_def] row_def)
qed

lemma generateChapterId_half: "generateChapterId (\<lambda>i. 1 / 2) = ''ssssss''"
  by (simp add: generateChapterId_def generateChapterId_loop.simps chars_def charAt_def)

lemma generateChapterId_zero: "generateChapterId (\<lambda>i. 0) = ''aaaaaa''"
  by (simp add: generateChapterId_def generateChapterId_loop.simps chars_def charAt_def)

lemma createChapter_Alpha:
  "createChapter (\<lambda>i. 1 / 2) ''uuid'' ''2024-01-01T00:00:00.000Z'' ''2024-01-01T00:00:00.000Z''
     no_chapters Alpha = ((201, ChapterJson alpha_chapter), one_chapter)"
  by (simp add: createChapter_def generateChapterId_half no_chapters_def Alpha_def
      ChapterModel_def insert_chapter_def alpha_chapter_def one_chapter_def Let_def)

text \<open>
  Claim C5. Whenever \<open>Math.random\<close> returns values in \<open>[0, 1)\<close> and chapter creation
  answers 201, the body is the chapter record that was inserted, and its opaque identifier
  is exactly 6 characters long, each a lowercase letter a to z or a digit 0 to 9.
\<close>

theorem createChapter_identifier_pattern:
  assumes "\<forall>i<6. 0 \<le> rnd i \<and> rnd i < 1"
    and "createChapter rnd uuid createdAt updatedAt db req = ((201, b), db')"
  shows "\<exists>c. b = ChapterJson c \<and> c \<in> set (chapters db') \<and>
             length (c_Chapter_Id c) = 6 \<and> list_all lowercase_alnum (c_Chapter_Id c)"
proof (cases "\<exists>c \<in> set (chapters db). LOWER (c_Chapter_Name c) = LOWER (Chapter_Name req)")
  case True
  from createChapter_name_taken [OF True] assms(2) show ?thesis by simp
next
  case name: False
  show ?thesis
  proof (cases "\<exists>c \<in> set (chapters db). c_Chapter_Id c = generateChapterId rnd")
    case True
    from createChapter_id_taken [OF name True] assms(2) show ?thesis by simp
  next
    case False
    from createChapter_inserts [OF assms(1) name False, of uuid createdAt updatedAt] assms(2)
      generateChapterId_shape [OF assms(1)]
    show ?thesis by auto
  qed
qed

theorem createChapter_identifier_pattern_witness:
  "(0::real) \<le> 1 / 2 \<and> (1 / 2 :: real) < 1 \<and>
   createChapter (\<lambda>i. 1 / 2) ''uuid'' ''2024-01-01T00:00:00.000Z'' ''2024-01-01T00:00:00.000Z''
     no_chapters Alpha = ((201, ChapterJson alpha_chapter), one_chapter) \<and>
   (\<exists>c. ChapterJson alpha_chapter = ChapterJson c \<and> c \<in> set (chapters one_chapter) \<and>
        length (c_Chapter_Id c) = 6 \<and> list_all lowercase_alnum (c_Chapter_Id c))"
proof -
  have h: "\<forall>i<6. (0::real) \<le> 1 / 2 \<and> (1 / 2 :: real) < 1" by simp
  from createChapter_identifier_pattern [OF h createChapter_Alpha] createChapter_Alpha
  show ?thesis by simp
qed

text \<open>
  Claim C7. A chapter-creation request that passes both conflict checks (no chapter has
  the same name ignoring case, none has the generated identifier) answers 201 and appends
  exactly one record, whose numeric id is the current maximum numeric id of the chapters
  table plus one, or 1 when the table is empty, and whose status is \<open>pending\<close>. The id
  is the one computed by \<open>createChapter\<close>; the store only checks it.
\<close>

theorem createChapter_numeric_id:
  fixes createdAt updatedAt :: string
  assumes "\<forall>i<6. 0 \<le> rnd i \<and> rnd i < 1"
    and "\<not> (\<exists>c \<in> set (chapters db). LOWER (c_Chapter_Name c) = LOWER (Chapter_Name req))"
    and "\<not> (\<exists>c \<in> set (chapters db). c_Chapter_Id c = generateChapterId rnd)"
  shows "\<exists>c. createChapter rnd uuid createdAt updatedAt db req =
               ((201, ChapterJson c), db\<lparr>chapters := chapters db @ [c]\<rparr>) \<and>
             c_ID c = (if chapters db = [] then 1 else Max (c_ID ` set (chapters db)) + 1) \<and>
             c_Status c = ''pending''"
  using createChapter_inserts [OF assms, of uuid createdAt updatedAt]
  by (simp add: next_numeric_id_def)

theorem createChapter_numeric_id_witness:
  "(0::real) \<le> 0 \<and> (0::real) < 1 \<and>
   \<not> (\<exists>c \<in> set (chapters one_chapter). LOWER (c_Chapter_Name c) = LOWER (Chapter_Name Beta)) \<and>
   \<not> (\<exists>c \<in> set (chapters one_chapter). c_Chapter_Id c = generateChapterId (\<lambda>i. 0)) \<and>
   (\<exists>c. createChapter (\<lambda>i. 0) ''uuid'' ''2024-01-02T00:00:00.000Z'' ''2024-01-02T00:00:00.000Z''
          one_chapter Beta =
          ((201, ChapterJson c), one_chapter\<lparr>chapters := chapters one_chapter @ [c]\<rparr>) \<and>
        c_ID c = 2 \<and> c_Status c = ''pending'')"
proof -
  have h1: "\<forall>i<6. (0::real) \<le> 0 \<and> (0::real) < 1" by simp
  have h2: "\<not> (\<exists>c \<in> set (chapters one_chapter).
                  LOWER (c_Chapter_Name c) = LOWER (Chapter_Name Beta))"
    by (simp add: one_chapter_def alpha_chapter_def Beta_def LOWER_def)
  have h3: "\<not> (\<exists>c \<in> set (chapters one_chapter). c_Chapter_Id c = generateChapterId (\<lambda>i. 0))"
    by (simp add: generateChapterId_zero one_chapter_def alpha_chapter_def)
  have m: "(if chapters one_chapter = [] then 1 else Max (c_ID ` set (chapters one_chapter)) + 1)
             = 2"
    by (simp add: one_chapter_def alpha_chapter_def)
  from createChapter_numeric_id [OF h1 h2 h3, of "''uuid''" "''2024-01-02T00:00:00.000Z''"
      "''2024-01-02T00:00:00.000Z''"] h2 h3
  show ?thesis unfolding m by simp
qed



text \<open>
  Claim C6. When the freshly generated identifier already exists in the chapters table,
  chapter creation answers 400 with an error body and leaves the database as it was:
  nothing is inserted, under the first identifier or under a regenerated one. The error is
  the name conflict when the name is taken too, otherwise
  \<open>Generated chapter ID already exists, please try again\<close>.
\<close>

theorem createChapter_identifier_collision:
  assumes "\<exists>c \<in> set (chapters db). c_Chapter_Id c = generateChapterId rnd"
  shows "createChapter rnd uuid createdAt updatedAt db req =
           ((400, Error (if \<exists>c \<in> set (chapters db).
                              LOWER (c_Chapter_Name c) = LOWER (Chapter_Name req)
                         then ''Chapter name already exists (case-insensitive)''
                         else ''Generated chapter ID already exists, please try again'')), db)"
  using assms createChapter_name_taken [of db req rnd uuid createdAt updatedAt]
    createChapter_id_taken [of db req rnd uuid createdAt updatedAt]
  by (cases "\<exists>c \<in> set (chapters db). LOWER (c_Chapter_Name c) = LOWER (Chapter_Name req)")
     simp_all


theorem createChapter_identifier_collision_witness:
  "(\<exists>c \<in> set (chapters one_chapter). c_Chapter_Id c = generateChapterId (\<lambda>i. 1 / 2)) \<and>
   createChapter (\<lambda>i. 1 / 2) ''uuid'' ''2024-01-02T00:00:00.000Z'' ''2024-01-02T00:00:00.000Z''
     one_chapter Beta =
     ((400, Error ''Generated chapter ID already exists, please try again''), one_chapter)"
proof -
  have h: "\<exists>c \<in> set (chapters one_chapter). c_Chapter_Id c = generateChapterId (\<lambda>i. 1 / 2)"
    by (simp add: generateChapterId_half one_chapter_def alpha_chapter_def)
  have n: "\<not> (\<exists>c \<in> set (chapters one_chapter).
                 LOWER (c_Chapter_Name c) = LOWER (Chapter_Name Beta))"
    by (simp add: one_chapter_def alpha_chapter_def Beta_def LOWER_def)
  from createChapter_identifier_collision [OF h, of "''uuid''" "''2024-01-02T00:00:00.000Z''"
      "''2024-01-02T00:00:00.000Z''" Beta] n h
  show ?thesis by simp
qed

section \<open>Membership creation\<close>

lemma insert_membership_checked:
  assumes "user_exists db (m_User_ID m)" "chapter_exists db (m_Chapter_Id m)"
    and "\<not> is_member db (m_User_ID m) (m_Chapter_Id m)"
  shows "insert_membership db m =
           Some (db\<lparr>memberships := memberships db @ [m\<lparr>m_ID := next_membership_id db\<rparr>],
                    memberships_seq := next_membership_id db\<rparr>)"
  using assms by (simp add: insert_membership_def user_exists_def chapter_exists_def is_member_def)

lemma createMembership_steps:
  fixes createdAt updatedAt :: string and db :: database
  assumes req: "User_ID req = Some u" "u \<noteq> []" "Chapter_Id req = Some c" "c \<noteq> []"
      "Warrior_Name req = Some n" "n \<noteq> []"
  defines "row \<equiv> \<lparr>m_ID = next_membership_id db, m_User_ID = u, m_Chapter_Id = c,
      m_Chapter_Rank = (if falsy (Chapter_Rank req) then ''member'' else the (Chapter_Rank req)),
      m_Chapter_Status = ''pending'', m_Warrior_Name = n,
      m_CreatedAt = createdAt, m_UpdatedAt = updatedAt\<rparr>"
  shows "createMembership createdAt updatedAt db req =
     (if \<not> user_exists db u then ((404, Message False ''User not found''), db)
      else if \<not> chapter_exists db c then ((404, Message False ''Chapter not found''), db)
      else if is_member db u c
        then ((400, Message False ''User is already a member of this chapter''), db)
      else if name_taken db n then ((400, Message False ''Warrior name is already taken''), db)
      else ((201, MembershipData (Some row)),
            db\<lparr>memberships := memberships db @ [row],
               memberships_seq := next_membership_id db\<rparr>))"
proof -
  have valid: "\<not> (falsy (User_ID req) \<or> falsy (Chapter_Id req) \<or> falsy (Warrior_Name req))"
    using req by (simp add: falsy_def)
  let ?m = "MembershipModel u c
      (if falsy (Chapter_Rank req) then ''member'' else the (Chapter_Rank req))
      ''pending'' n createdAt updatedAt"
  have model: "?m\<lparr>m_ID := next_membership_id db\<rparr> = row"
    using req by (cases "Chapter_Rank req") (simp_all add: MembershipModel_def row_def falsy_def)
  have fields: "m_User_ID ?m = u" "m_Chapter_Id ?m = c"
    by (simp_all add: MembershipModel_def)
  show ?thesis
  proof (cases "user_exists db u \<and> chapter_exists db c \<and> \<not> is_member db u c \<and> \<not> name_taken db n")
    case True
    then have ins: "insert_membership db ?m =
        Some (db\<lparr>memberships := memberships db @ [row],
                 memberships_seq := next_membership_id db\<rparr>)"
      using insert_membership_checked [of db ?m] by (simp add: fields model)
    have sel: "m_User_ID row = u" "m_Chapter_Id row = c"
      by (simp_all add: row_def)
    from True show ?thesis
      unfolding createMembership_def Let_def rows_exist rows_absent
      using valid req(1,3,5)
      by (simp add: ins sel first_row_def user_exists_def chapter_exists_def is_member_def
          name_taken_def LOWER_eq_iff filter_empty_conv)
  next
    case False
    then show ?thesis
      unfolding createMembership_def Let_def rows_exist rows_absent
      using valid req(1,3,5)
      by (auto simp: user_exists_def chapter_exists_def is_member_def name_taken_def
          LOWER_eq_iff)
  qed
qed

lemma createMembership_missing_fields:
  assumes "falsy (User_ID req) \<or> falsy (Chapter_Id req) \<or> falsy (Warrior_Name req)"
  shows "createMembership createdAt updatedAt db req =
     ((400, Message False
         ''Missing required fields: User_ID, Chapter_Id, and Warrior_Name are required''), db)"
  using assms by (simp add: createMembership_def)

lemma createMembership_effect:
  fixes createdAt updatedAt :: string and db :: database and req :: membership_body
  defines "r \<equiv> createMembership createdAt updatedAt db req"
  shows "snd r = db \<or>
     (\<exists>m. snd r = db\<lparr>memberships := memberships db @ [m],
                       memberships_seq := next_membership_id db\<rparr> \<and>
          user_exists db (m_User_ID m) \<and> chapter_exists db (m_Chapter_Id m) \<and>
          \<not> is_member db (m_User_ID m) (m_Chapter_Id m))"
proof (cases "falsy (User_ID req) \<or> falsy (Chapter_Id req) \<or> falsy (Warrior_Name req)")
  case True
  then show ?thesis by (simp add: r_def createMembership_missing_fields)
next
  case False
  then obtain u c n where req: "User_ID req = Some u" "u \<noteq> []" "Chapter_Id req = Some c"
      "c \<noteq> []" "Warrior_Name req = Some n" "n \<noteq> []"
    by (auto simp: falsy_def)
  define row where "row = \<lparr>m_ID = next_membership_id db, m_User_ID = u, m_Chapter_Id = c,
      m_Chapter_Rank = (if falsy (Chapter_Rank req) then ''member'' else the (Chapter_Rank req)),
      m_Chapter_Status = ''pending'', m_Warrior_Name = n,
      m_CreatedAt = createdAt, m_UpdatedAt = updatedAt\<rparr>"
  have row: "m_User_ID row = u" "m_Chapter_Id row = c" by (simp_all add: row_def)
  note steps = createMembership_steps [OF req, of createdAt updatedAt db, folded row_def r_def]
  show ?thesis
  proof (cases "user_exists db u \<and> chapter_exists db c \<and> \<not> is_member db u c \<and>
      \<not> name_taken db n")
    case True
    then have "snd r = db\<lparr>memberships := memberships db @ [row],
        memberships_seq := next_membership_id db\<rparr>"
      by (simp add: steps)
    with True row show ?thesis by auto
  next
    case False
    then have "snd r = db" by (auto simp: steps)
    then show ?thesis ..
  qed
qed

lemma membership_invariant_insert:
  assumes inv: "membership_invariant db"
    and m: "user_exists db (m_User_ID m)" "chapter_exists db (m_Chapter_Id m)"
      "\<not> is_member db (m_User_ID m) (m_Chapter_Id m)"
  shows "membership_invariant (db\<lparr>memberships := memberships db @ [m], memberships_seq := k\<rparr>)"
proof -
  have "(m_User_ID m, m_Chapter_Id m) \<notin>
          set (map (\<lambda>m. (m_User_ID m, m_Chapter_Id m)) (memberships db))"
    using m(3) by (auto simp: is_member_def)
  with inv m(1,2) show ?thesis
    by (auto simp: membership_invariant_def user_exists_def chapter_exists_def)
qed

text \<open>
  Claim C1. For a membership-creation request whose user reference, chapter reference and
  display name are present and non-empty, the answer is decided by four checks in this
  order: the user exists (else 404 \<open>User not found\<close>), the chapter exists (else 404
  \<open>Chapter not found\<close>), the pair is not yet a membership (else 400
  \<open>User is already a member of this chapter\<close>), the display name is not taken ignoring
  case by any membership (else 400 \<open>Warrior name is already taken\<close>). A failing check
  leaves the database as it was. When all four pass, exactly one row is appended, with
  status \<open>pending\<close> and rank \<open>member\<close> unless one is given, and that row is the body of
  the 201 answer.
\<close>

theorem createMembership_check_order:
  fixes createdAt updatedAt :: string and db :: database
  assumes "User_ID req = Some u" "u \<noteq> []" "Chapter_Id req = Some c" "c \<noteq> []"
      "Warrior_Name req = Some n" "n \<noteq> []"
  defines "row \<equiv> \<lparr>m_ID = next_membership_id db, m_User_ID = u, m_Chapter_Id = c,
      m_Chapter_Rank = (if falsy (Chapter_Rank req) then ''member'' else the (Chapter_Rank req)),
      m_Chapter_Status = ''pending'', m_Warrior_Name = n,
      m_CreatedAt = createdAt, m_UpdatedAt = updatedAt\<rparr>"
  shows "createMembership createdAt updatedAt db req =
     (if \<not> user_exists db u then ((404, Message False ''User not found''), db)
      else if \<not> chapter_exists db c then ((404, Message False ''Chapter not found''), db)
      else if is_member db u c
        then ((400, Message False ''User is already a member of this chapter''), db)
      else if name_taken db n then ((400, Message False ''Warrior name is already taken''), db)
      else ((201, MembershipData (Some row)),
            db\<lparr>memberships := memberships db @ [row],
               memberships_seq := next_membership_id db\<rparr>))"
  unfolding row_def using assms(1-6) by (rule createMembership_steps)

lemma no_members_facts:
  "user_exists no_members ''u1''" "chapter_exists no_members ''ssssss''"
  "\<not> is_member no_members ''u1'' ''ssssss''" "\<not> name_taken no_members ''TestWarrior''"
  "next_membership_id no_members = 1"
  by (simp_all add: no_members_def user_exists_def chapter_exists_def is_member_def
      name_taken_def next_membership_id_def alice_def alpha_chapter_def)

theorem createMembership_check_order_witness:
  "User_ID alice_joins = Some ''u1'' \<and> ''u1'' \<noteq> [] \<and>
   Chapter_Id alice_joins = Some ''ssssss'' \<and> ''ssssss'' \<noteq> [] \<and>
   Warrior_Name alice_joins = Some ''TestWarrior'' \<and> ''TestWarrior'' \<noteq> [] \<and>
   createMembership ''2024-01-03T00:00:00.000Z'' ''2024-01-03T00:00:00.000Z'' no_members
     alice_joins = ((201, MembershipData (Some alice_membership)), one_member)"
proof -
  have h: "User_ID alice_joins = Some ''u1''" "''u1'' \<noteq> []"
      "Chapter_Id alice_joins = Some ''ssssss''" "''ssssss'' \<noteq> []"
      "Warrior_Name alice_joins = Some ''TestWarrior''" "''TestWarrior'' \<noteq> []"
    by (simp_all add: alice_joins_def)
  have r: "Chapter_Rank alice_joins = None" by (simp add: alice_joins_def)
  from createMembership_check_order [OF h, of "''2024-01-03T00:00:00.000Z''"
      "''2024-01-03T00:00:00.000Z''" no_members] h
  show ?thesis
    by (simp add: no_members_facts r falsy_def alice_membership_def)
       (simp add: no_members_def one_member_def alice_membership_def)
qed

text \<open>
  Claim C2. From a state in which the membership pairs (user reference, chapter reference)
  are distinct and every membership's references resolve to existing User and Chapter
  rows, every membership-creation request, valid or not, leads to a state with the same
  property. The request either leaves the database as it was or appends one row, and
  then the pair of that row was not present before and its user and chapter existed
  before the insert.
\<close>

theorem createMembership_preserves_invariant:
  fixes createdAt updatedAt :: string
  assumes "membership_invariant db"
  shows "membership_invariant (snd (createMembership createdAt updatedAt db req)) \<and>
     (snd (createMembership createdAt updatedAt db req) = db \<or>
      (\<exists>m. snd (createMembership createdAt updatedAt db req) =
             db\<lparr>memberships := memberships db @ [m],
                memberships_seq := next_membership_id db\<rparr> \<and>
           user_exists db (m_User_ID m) \<and> chapter_exists db (m_Chapter_Id m) \<and>
           \<not> is_member db (m_User_ID m) (m_Chapter_Id m)))"
proof -
  let ?db' = "snd (createMembership createdAt updatedAt db req)"
  note eff = createMembership_effect [of createdAt updatedAt db req]
  from eff have "membership_invariant ?db'"
  proof
    assume "?db' = db"
    with assms show ?thesis by simp
  next
    assume "\<exists>m. ?db' = db\<lparr>memberships := memberships db @ [m],
                           memberships_seq := next_membership_id db\<rparr> \<and>
          user_exists db (m_User_ID m) \<and> chapter_exists db (m_Chapter_Id m) \<and>
          \<not> is_member db (m_User_ID m) (m_Chapter_Id m)"
    then obtain m where m: "?db' = db\<lparr>memberships := memberships db @ [m],
                           memberships_seq := next_membership_id db\<rparr>"
        "user_exists db (m_User_ID m)" "chapter_exists db (m_Chapter_Id m)"
        "\<not> is_member db (m_User_ID m) (m_Chapter_Id m)"
      by blast
    show ?thesis
      unfolding m(1) using assms m(2-4) by (rule membership_invariant_insert)
  qed
  with eff show ?thesis by simp
qed

lemma one_member_facts:
  "user_exists one_member ''u2''" "chapter_exists one_member ''ssssss''"
  "\<not> is_member one_member ''u2'' ''ssssss''" "next_membership_id one_member = 2"
  by (simp_all add: one_member_def user_exists_def chapter_exists_def is_member_def
      next_membership_id_def alice_def bob_def alpha_chapter_def alice_membership_def)

lemma one_member_names:
  "name_taken one_member ''testwarrior''" "\<not> name_taken one_member ''Other''"
  by (simp_all add: one_member_def name_taken_def alice_membership_def
      equal_ignoring_case_def same_ignoring_case_def upper_of_def code_def)

lemma bob_joins_renamed_fields:
  "User_ID bob_joins_renamed = Some ''u2''" "''u2'' \<noteq> []"
  "Chapter_Id bob_joins_renamed = Some ''ssssss''" "''ssssss'' \<noteq> []"
  "Warrior_Name bob_joins_renamed = Some ''Other''" "''Other'' \<noteq> []"
  by (simp_all add: bob_joins_renamed_def)

lemma createMembership_bob:
  "createMembership ''2024-01-04T00:00:00.000Z'' ''2024-01-04T00:00:00.000Z'' one_member
     bob_joins_renamed =
   ((201, MembershipData (Some bob_membership)),
    one_member\<lparr>memberships := memberships one_member @ [bob_membership],
      memberships_seq := 2\<rparr>)"
  unfolding createMembership_steps [OF bob_joins_renamed_fields]
  by (simp add: one_member_facts one_member_names falsy_def bob_membership_def
      bob_joins_renamed_def)

lemma one_member_invariant: "membership_invariant one_member"
  by (simp add: membership_invariant_def one_member_def alice_membership_def
      user_exists_def chapter_exists_def alice_def alpha_chapter_def)

theorem createMembership_preserves_invariant_witness:
  "membership_invariant one_member \<and>
   membership_invariant
     (one_member\<lparr>memberships := memberships one_member @ [bob_membership],
        memberships_seq := 2\<rparr>)"
  using createMembership_preserves_invariant [OF one_member_invariant,
      of "''2024-01-04T00:00:00.000Z''" "''2024-01-04T00:00:00.000Z''" bob_joins_renamed]
    one_member_invariant
  by (simp add: createMembership_bob)




section \<open>Rounding to a double\<close>

lemma binade_bounds:
  assumes "0 < a"
  shows "2 powi binade a \<le> a \<and> a < 2 powi (binade a + 1)"
proof (cases "1 \<le> a")
  case True
  define n where "n = \<lfloor>a\<rfloor>"
  have n: "0 < n" "real_of_int n \<le> a" "a < real_of_int n + 1"
    using True unfolding n_def by linarith+
  have e: "binade a = bitlen n - 1" using True by (simp add: binade_def n_def)
  have "bitlen n \<noteq> 0" using n(1) by (simp add: bitlen_eq_zero_iff)
  with bitlen_nonneg [of n] have pos: "1 \<le> bitlen n" by linarith
  from bitlen_bounds [OF n(1)]
  have lo: "2 ^ nat (bitlen n - 1) \<le> n" and hi: "n + 1 \<le> 2 ^ nat (bitlen n)" by simp_all
  have "(2::real) powi (bitlen n - 1) = 2 ^ nat (bitlen n - 1)"
    using pos by (simp add: power_int_nonneg_exp)
  also have "\<dots> \<le> real_of_int n" using lo by (metis of_int_le_iff of_int_numeral of_int_power)
  finally have 1: "2 powi binade a \<le> a" using n(2) e by simp
  have "a < real_of_int (n + 1)" using n(3) by simp
  also have "\<dots> \<le> 2 ^ nat (bitlen n)" using hi by (metis of_int_le_iff of_int_numeral of_int_power)
  also have "\<dots> = (2::real) powi (bitlen n)" using pos by (simp add: power_int_nonneg_exp)
  finally have 2: "a < 2 powi (binade a + 1)" using e by simp
  from 1 2 show ?thesis ..
next
  case False
  define m where "m = \<lceil>1 / a\<rceil> - 1"
  have inv: "1 < 1 / a" using assms False by simp
  have m: "0 < m" "real_of_int m < 1 / a" "1 / a \<le> real_of_int m + 1"
    using inv unfolding m_def by linarith+
  define k where "k = bitlen m"
  have e: "binade a = - k" using False by (simp add: binade_def m_def k_def)
  have "bitlen m \<noteq> 0" using m(1) by (simp add: bitlen_eq_zero_iff)
  with bitlen_nonneg [of m] have pos: "1 \<le> k" unfolding k_def by linarith
  from bitlen_bounds [OF m(1)]
  have lo: "2 ^ nat (k - 1) \<le> m" and hi: "m + 1 \<le> 2 ^ nat k" by (simp_all add: k_def)
  have "1 / a \<le> real_of_int (m + 1)" using m(3) by simp
  also have "\<dots> \<le> 2 ^ nat k" using hi by (metis of_int_le_iff of_int_numeral of_int_power)
  finally have "1 / 2 ^ nat k \<le> a" using assms by (simp add: field_simps)
  moreover have "(2::real) powi (- k) = 1 / 2 ^ nat k"
    using pos by (simp add: power_int_minus_divide power_int_nonneg_exp)
  ultimately have 1: "2 powi binade a \<le> a" using e by simp
  have "(2::real) ^ nat (k - 1) \<le> real_of_int m"
    using lo by (metis of_int_le_iff of_int_numeral of_int_power)
  also have "\<dots> < 1 / a" by (rule m(2))
  finally have "a < 1 / 2 ^ nat (k - 1)" using assms by (simp add: field_simps)
  moreover have "(2::real) powi (- k + 1) = 1 / 2 ^ nat (k - 1)"
  proof -
    have "(2::real) powi (- k + 1) = 2 powi (- (k - 1))" by simp
    also have "\<dots> = 1 / 2 powi (k - 1)" by (rule power_int_minus_divide)
    also have "\<dots> = 1 / 2 ^ nat (k - 1)" using pos by (simp add: power_int_nonneg_exp)
    finally show ?thesis .
  qed
  ultimately have 2: "a < 2 powi (binade a + 1)" using e by simp
  from 1 2 show ?thesis ..
qed

lemma binade_unique:
  assumes "0 < a" "2 powi e \<le> a" "a < 2 powi (e + 1)"
  shows "binade a = e"
proof (rule ccontr)
  assume ne: "binade a \<noteq> e"
  from binade_bounds [OF assms(1)]
  have b: "2 powi binade a \<le> a" "a < 2 powi (binade a + 1)" by simp_all
  show False
  proof (cases "binade a < e")
    case True
    then have "(2::real) powi (binade a + 1) \<le> 2 powi e"
      by (intro power_int_increasing) simp_all
    with b(2) assms(2) show False by linarith
  next
    case False
    with ne have "e + 1 \<le> binade a" by simp
    then have "(2::real) powi (e + 1) \<le> 2 powi binade a"
      by (intro power_int_increasing) simp_all
    with b(1) assms(3) show False by linarith
  qed
qed

lemma round_half_even_error: "\<bar>real_of_int (round_half_even q) - q\<bar> \<le> 1 / 2"
proof -
  have "0 \<le> q - real_of_int \<lfloor>q\<rfloor>" "q - real_of_int \<lfloor>q\<rfloor> < 1" by linarith+
  then show ?thesis
    unfolding round_half_even_def Let_def by (auto split: if_splits)
qed

lemma round_half_even_of_int [simp]: "round_half_even (real_of_int n) = n"
  by (simp add: round_half_even_def)

lemma fl_binade:
  assumes "x \<noteq> 0" "2 powi e \<le> \<bar>x\<bar>" "\<bar>x\<bar> < 2 powi (e + 1)" "- 1022 \<le> e"
  shows "fl x =
     (let ulp = 2 powi (e - 52); y = of_int (round_half_even (\<bar>x\<bar> / ulp)) * ulp
      in if 2 ^ 1024 \<le> y then (if 0 < x then PosInfinity else NegInfinity)
         else Fin (sgn x * y))"
proof -
  have be: "binade \<bar>x\<bar> = e" using assms(1-3) by (intro binade_unique) simp_all
  have mx: "max e (- 1022) = e" using assms(4) by simp
  show ?thesis unfolding fl_def Let_def be mx using assms(1) by (simp only: if_False)
qed

lemma fl_of_int:
  assumes "\<bar>n\<bar> \<le> 2 ^ 53"
  shows "fl (real_of_int n) = Fin (real_of_int n)"
proof (cases "n = 0")
  case True
  then show ?thesis by (simp add: fl_def)
next
  case False
  define a where "a = \<bar>real_of_int n\<bar>"
  define e where "e = binade a"
  have a3: "a = real_of_int \<bar>n\<bar>" by (simp add: a_def)
  have "1 \<le> \<bar>n\<bar>" using False by simp
  then have a1: "1 \<le> a" unfolding a3 by linarith
  have a2: "a \<le> 2 ^ 53" unfolding a3 using assms
    by (metis of_int_le_iff of_int_numeral of_int_power)
  note a = a1 a2 a3
  from binade_bounds [of a] a(1)
  have b: "2 powi e \<le> a" "a < 2 powi (e + 1)" by (simp_all add: e_def)
  have e_lo: "0 \<le> e"
  proof (rule ccontr)
    assume "\<not> 0 \<le> e"
    then have "(2::real) powi (e + 1) \<le> 2 powi 0" by (intro power_int_increasing) simp_all
    with b(2) a(1) show False by simp
  qed
  have e_hi: "e \<le> 53"
  proof -
    have "(2::real) powi e \<le> 2 powi 53" using b(1) a(2) by simp
    then show ?thesis by (rule power_int_le_imp_le_exp [rotated]) simp_all
  qed
  have "\<exists>k. a / 2 powi (e - 52) = real_of_int k"
  proof (cases "e \<le> 52")
    case True
    have "1 / (2::real) powi (e - 52) = 2 powi (52 - e)"
      using power_int_minus_divide [of "2::real" "e - 52"] by simp
    also have "\<dots> = 2 ^ nat (52 - e)" using True by (simp add: power_int_nonneg_exp)
    finally have "a / 2 powi (e - 52) = real_of_int (\<bar>n\<bar> * 2 ^ nat (52 - e))"
      using a(3) by (simp add: field_simps)
    then show ?thesis ..
  next
    case False
    with e_hi have e: "e = 53" by simp
    with b(1) a(2) have "a = 2 ^ 53" by simp
    with e have "a / 2 powi (e - 52) = real_of_int (2 ^ 52)" by simp
    then show ?thesis ..
  qed
  then obtain k where k: "a / 2 powi (e - 52) = real_of_int k" ..
  have "real_of_int (round_half_even (a / 2 powi (e - 52))) = a / 2 powi (e - 52)"
    by (simp only: k round_half_even_of_int)
  then have y: "real_of_int (round_half_even (a / 2 powi (e - 52))) * 2 powi (e - 52) = a"
    by simp
  have small: "\<not> 2 ^ 1024 \<le> a" using a(2) by simp
  have "fl (real_of_int n) = Fin (sgn (real_of_int n) * a)"
    using fl_binade [of "real_of_int n" e] False b e_lo small
    by (simp add: a_def [symmetric] Let_def y)
  then show ?thesis by (simp add: a_def sgn_mult_abs del: of_int_abs)
qed

lemma fl_error:
  assumes "0 < x" "2 powi (- 1022) \<le> x" "x < 2 ^ 1023"
  shows "\<exists>y. fl x = Fin y \<and> \<bar>y - x\<bar> \<le> x / 2 ^ 53"
proof -
  define e where "e = binade x"
  define ulp :: real where "ulp = 2 powi (e - 52)"
  define y where "y = real_of_int (round_half_even (x / ulp)) * ulp"
  from binade_bounds [OF assms(1)]
  have b: "2 powi e \<le> x" "x < 2 powi (e + 1)" by (simp_all add: e_def)
  have e_lo: "- 1022 \<le> e"
  proof (rule ccontr)
    assume "\<not> - 1022 \<le> e"
    then have "(2::real) powi (e + 1) \<le> 2 powi (- 1022)"
      by (intro power_int_increasing) simp_all
    with b(2) assms(2) show False by linarith
  qed
  have ulp: "0 < ulp" "ulp * 2 ^ 53 = 2 * 2 powi e"
  proof -
    show "0 < ulp" by (simp add: ulp_def)
    have "ulp * (2::real) powi 53 = 2 powi (e - 52 + 53)"
      unfolding ulp_def by (subst power_int_add) simp_all
    also have "\<dots> = 2 powi (e + 1)" by (simp add: algebra_simps)
    also have "\<dots> = 2 * 2 powi e" by (simp add: power_int_add)
    finally show "ulp * 2 ^ 53 = 2 * 2 powi e" by simp
  qed
  have "y - x = ulp * (real_of_int (round_half_even (x / ulp)) - x / ulp)"
    using ulp(1) by (simp add: y_def field_simps)
  then have "\<bar>y - x\<bar> = ulp * \<bar>real_of_int (round_half_even (x / ulp)) - x / ulp\<bar>"
    using ulp(1) by (simp only: abs_mult abs_of_pos)
  also have "\<dots> \<le> ulp * (1 / 2)"
    using round_half_even_error [of "x / ulp"] ulp(1) by (intro mult_left_mono) simp_all
  finally have "\<bar>y - x\<bar> * 2 ^ 53 \<le> ulp * 2 ^ 53 / 2" by simp
  then have "\<bar>y - x\<bar> * 2 ^ 53 \<le> x" using ulp(2) b(1) by simp
  then have err: "\<bar>y - x\<bar> \<le> x / 2 ^ 53" by (simp add: field_simps)
  have "x / 2 ^ 53 \<le> x" using assms(1) by (simp add: field_simps)
  with err have "y \<le> 2 * x" by linarith
  with assms(3) have small: "\<not> 2 ^ 1024 \<le> y" by simp
  have "fl x = Fin y"
    using fl_binade [of x e] assms(1) b e_lo small
    by (simp add: Let_def ulp_def [symmetric] y_def [symmetric])
  with err show ?thesis by blast
qed

lemma fl_small: "fl 1 = Fin 1" "fl 2 = Fin 2" "fl 3 = Fin 3" "fl 50 = Fin 50"
  using fl_of_int [of 1] fl_of_int [of 2] fl_of_int [of 3] fl_of_int [of 50] by simp_all

lemma Number_exact: "int n < 2 ^ 53 \<Longrightarrow> Number n = Fin (real n)"
  using fl_of_int [of "int n"] by (simp add: Number_def)

lemma bind_integer_of_int:
  assumes "- (2 ^ 63) < n" "n < 2 ^ 63"
  shows "bind_integer (Fin (real_of_int n)) = Some n"
proof -
  have "- (2 ^ 63) < real_of_int n" "real_of_int n < 2 ^ 63"
    using assms by (metis of_int_less_iff of_int_minus of_int_numeral of_int_power,
        metis of_int_less_iff of_int_numeral of_int_power)
  then show ?thesis by (simp add: bind_integer_def)
qed

section \<open>Chapter list\<close>

lemma ceiling_ratio:
  fixes N L :: int
  assumes "0 < L"
  shows "\<lceil>real_of_int N / real_of_int L\<rceil> = (N + L - 1) div L"
proof (rule ceiling_unique)
  let ?m = "N + L - 1"
  have eq: "L * (?m div L) + ?m mod L = ?m" by simp
  have lo: "0 \<le> ?m mod L" and hi: "?m mod L < L" using assms by simp_all
  have up: "N \<le> L * (?m div L)" using eq hi by linarith
  have below: "L * (?m div L) < N + L" using eq lo by linarith
  have "real_of_int N \<le> real_of_int (L * (?m div L))" using up by linarith
  then show "real_of_int N / real_of_int L \<le> real_of_int (?m div L)"
    using assms by (simp add: field_simps)
  have "real_of_int (L * (?m div L)) < real_of_int (N + L)" using below by linarith
  then show "real_of_int (?m div L) - 1 < real_of_int N / real_of_int L"
    using assms by (simp add: field_simps)
qed

lemma total_pages_bounds:
  fixes N L :: int
  assumes "0 < L"
  shows "L * ((N + L - 1) div L - 1) < N \<and> N \<le> L * ((N + L - 1) div L)"
proof -
  let ?m = "N + L - 1"
  have eq: "L * (?m div L) + ?m mod L = ?m" by simp
  have lo: "0 \<le> ?m mod L" and hi: "?m mod L < L" using assms by simp_all
  have "L * (?m div L - 1) = L * (?m div L) - L" by (simp add: algebra_simps)
  with eq lo hi show ?thesis by linarith
qed

lemma beyond_last_page:
  fixes N L p :: int
  assumes "0 < L" "(N + L - 1) div L < p"
  shows "N \<le> (p - 1) * L"
proof -
  have "(N + L - 1) div L \<le> p - 1" using assms(2) by simp
  then have "L * ((N + L - 1) div L) \<le> L * (p - 1)"
    using assms(1) by (simp add: mult_left_mono)
  with total_pages_bounds [OF assms(1), of N] show ?thesis by (simp add: mult.commute)
qed

text \<open>
  The quotient of a row count below \<open>2^53\<close> by a positive integer, computed in doubles,
  has the ceiling of the exact quotient: the rounding error is below \<open>1/L\<close>, the distance
  of a quotient that is not an integer from the next integers.
\<close>

lemma Math_ceil_divide:
  fixes N L :: int
  assumes "0 \<le> N" "N < 2 ^ 53" "1 \<le> L" "L \<le> 2 ^ 63"
  shows "Math_ceil (divide_number (Fin (real_of_int N)) (Fin (real_of_int L))) =
           Fin (real_of_int ((N + L - 1) div L))"
proof (cases "N = 0")
  case True
  have "(L - 1) div L = 0" using assms(3) by (simp add: div_pos_pos_trivial)
  with True assms(3) show ?thesis by (simp add: fl_def)
next
  case False
  define x where "x = real_of_int N / real_of_int L"
  define k where "k = (N + L - 1) div L"
  have L: "0 < L" "0 < real_of_int L" using assms(3) by simp_all
  have N: "0 < real_of_int N" "real_of_int N < 2 ^ 53"
    using False assms(1,2) by (simp, metis of_int_less_iff of_int_numeral of_int_power)
  have Lr: "real_of_int L \<le> 2 ^ 63"
    using assms(4) by (metis of_int_le_iff of_int_numeral of_int_power)
  have xpos: "0 < x" using N(1) L(2) by (simp add: x_def)
  have "1 \<le> real_of_int N" using False assms(1) by linarith
  then have "1 / 2 ^ 63 \<le> x"
    using Lr L(2) unfolding x_def by (simp add: field_simps)
  moreover have "(2::real) powi (- 1022) \<le> 1 / 2 ^ 63"
    by (simp add: power_int_minus_divide)
  ultimately have xlo: "2 powi (- 1022) \<le> x" by linarith
  have "x \<le> real_of_int N" using N(1) L(2) assms(3) unfolding x_def
    by (simp add: field_simps mult_le_cancel_left1)
  with N(2) have xhi: "x < 2 ^ 1023" by simp
  from fl_error [OF xpos xlo xhi] obtain y where y: "fl x = Fin y" "\<bar>y - x\<bar> \<le> x / 2 ^ 53"
    by blast
  have "x / 2 ^ 53 < 1 / real_of_int L"
    using N(2) L(2) unfolding x_def by (simp add: field_simps)
  with y(2) have err: "\<bar>y - x\<bar> < 1 / real_of_int L" by linarith
  from total_pages_bounds [OF L(1), of N]
  have b: "L * (k - 1) < N" "N \<le> L * k" by (simp_all add: k_def)
  have lower: "real_of_int (k - 1) + 1 / real_of_int L \<le> x"
  proof -
    have "L * (k - 1) + 1 \<le> N" using b(1) by simp
    then have "real_of_int (L * (k - 1) + 1) \<le> real_of_int N" by linarith
    moreover have "(real_of_int (k - 1) + 1 / real_of_int L) * real_of_int L =
        real_of_int (L * (k - 1) + 1)"
      using L(2) by (simp add: algebra_simps)
    ultimately show ?thesis
      unfolding x_def using L(2) by (simp only: pos_le_divide_eq)
  qed
  have ceil: "\<lceil>y\<rceil> = k"
  proof (cases "N = L * k")
    case True
    then have xk: "x = real_of_int k" using L(2) by (simp add: x_def)
    have "0 \<le> k" using b(1) L(1) True assms(1) by (simp add: zero_le_mult_iff)
    moreover have "k \<le> N" using True L(1) assms(3) \<open>0 \<le> k\<close>
      by (simp add: mult_le_cancel_right1)
    ultimately have "\<bar>k\<bar> \<le> 2 ^ 53" using assms(2) by simp
    from fl_of_int [OF this] y(1) xk have "y = real_of_int k" by simp
    then show ?thesis by simp
  next
    case False
    with b(2) have "N + 1 \<le> L * k" by simp
    then have "real_of_int (N + 1) \<le> real_of_int (L * k)" by (simp only: of_int_le_iff)
    then have "real_of_int (N + 1) \<le> real_of_int k * real_of_int L" by (simp add: mult.commute)
    moreover have "x + 1 / real_of_int L = real_of_int (N + 1) / real_of_int L"
      by (simp add: x_def add_divide_distrib)
    ultimately have upper: "x + 1 / real_of_int L \<le> real_of_int k"
      using L(2) by (simp only: pos_divide_le_eq)
    show ?thesis
    proof (rule ceiling_unique)
      show "real_of_int k - 1 < y" using lower err by (simp add: abs_less_iff)
      show "y \<le> real_of_int k" using upper err by (simp add: abs_less_iff)
    qed
  qed
  have "divide_number (Fin (real_of_int N)) (Fin (real_of_int L)) = Fin y"
    using L(2) y(1) by (simp add: x_def)
  then show ?thesis by (simp add: ceil k_def)
qed

lemma orElse_truthy: "x \<noteq> 0 \<Longrightarrow> orElse (Fin x) d = Fin x"
  by (simp add: orElse_def)

lemma orElse_falsy: "v = NaN \<or> v = Fin 0 \<Longrightarrow> orElse v d = d"
  by (auto simp: orElse_def)

lemma parseInt_defaults: "parseInt ''1'' = Fin 1" "parseInt ''50'' = Fin 50"
  "parseInt ''0'' = Fin 0" "parseInt ''2'' = Fin 2" "parseInt ''3'' = Fin 3"
  "parseInt ''undefined'' = NaN"
  by (simp_all add: parseInt_def isWhiteSpace_def isRadixDigit_def digitValue_def mathInt_def
      code_def fl_small) (simp add: fl_def)

lemma page_in_range:
  fixes p L :: int
  assumes "1 \<le> p" "p \<le> 2 ^ 53" "1 \<le> L" "L \<le> 2 ^ 53" "(p - 1) * L \<le> 2 ^ 53"
  shows "orElse (Fin (real_of_int p)) d = Fin (real_of_int p)"
    and "orElse (Fin (real_of_int L)) d' = Fin (real_of_int L)"
    and "times_number (minus_number (Fin (real_of_int p)) (Fin 1)) (Fin (real_of_int L)) =
           Fin (real_of_int ((p - 1) * L))"
    and "bind_integer (Fin (real_of_int L)) = Some L"
    and "bind_integer (Fin (real_of_int ((p - 1) * L))) = Some ((p - 1) * L)"
proof -
  show "orElse (Fin (real_of_int p)) d = Fin (real_of_int p)"
    using assms(1) by (simp add: orElse_def)
  show "orElse (Fin (real_of_int L)) d' = Fin (real_of_int L)"
    using assms(3) by (simp add: orElse_def)
  have "\<bar>p - 1\<bar> \<le> 2 ^ 53" using assms(1,2) by simp
  from fl_of_int [OF this] have sub: "fl (real_of_int p - 1) = Fin (real_of_int (p - 1))"
    by simp
  have nonneg: "0 \<le> (p - 1) * L" using assms(1,3) by simp
  with assms(5) have "\<bar>(p - 1) * L\<bar> \<le> 2 ^ 53" by simp
  from fl_of_int [OF this]
  have mul: "fl (real_of_int (p - 1) * real_of_int L) = Fin (real_of_int ((p - 1) * L))"
    by simp
  have "minus_number (Fin (real_of_int p)) (Fin 1) = Fin (real_of_int (p - 1))"
    by (simp only: minus_number.simps sub)
  then show "times_number (minus_number (Fin (real_of_int p)) (Fin 1)) (Fin (real_of_int L)) =
           Fin (real_of_int ((p - 1) * L))"
    by (simp only: times_number.simps mul)
  show "bind_integer (Fin (real_of_int L)) = Some L"
    using assms(3,4) by (intro bind_integer_of_int) simp_all
  show "bind_integer (Fin (real_of_int ((p - 1) * L))) = Some ((p - 1) * L)"
    using nonneg assms(5) by (intro bind_integer_of_int) simp_all
qed

text \<open>
  Claim C8, as the code has it. Page and limit are doubles, and limit and offset are
  bound as 64-bit integers; a request outside that range is answered 500. For a request
  whose page parses to \<open>p\<close> and whose limit parses to \<open>L\<close>, with
  \<open>1 \<le> p \<le> 2^53\<close>, \<open>1 \<le> L \<le> 2^53\<close> and \<open>(p-1)*L \<le> 2^53\<close>, over a table of
  \<open>N < 2^53\<close> chapters: the answer is 200; its rows are the identifier and name of the
  chapters at positions \<open>(p-1)*L\<close> up to \<open>(p-1)*L + L\<close> of the table sorted by name in
  the order of the code units (a sorted rearrangement of the table), at most \<open>L\<close> of them;
  the envelope has \<open>total = N\<close>, \<open>page = p\<close>, \<open>limit = L\<close> and \<open>totalPages\<close> the least
  integer \<open>T\<close> with \<open>N \<le> L * T\<close>, that is \<open>ceil(N/L)\<close>; and when \<open>p\<close> is beyond
  \<open>totalPages\<close> the rows are empty while \<open>total\<close> is still \<open>N\<close>.
\<close>

theorem getChapters_pagination:
  fixes db :: database and p L :: int
  assumes "parseInt (ToString query_page) = Fin (real_of_int p)" "1 \<le> p" "p \<le> 2 ^ 53"
    and "parseInt (ToString query_limit) = Fin (real_of_int L)" "1 \<le> L" "L \<le> 2 ^ 53"
    and "(p - 1) * L \<le> 2 ^ 53"
    and "int (length (chapters db)) < 2 ^ 53"
  defines "N \<equiv> int (length (chapters db))"
    and "ordered \<equiv> ORDER_BY_Chapter_Name (chapters db)"
  defines "T \<equiv> (N + L - 1) div L"
    and "rows \<equiv> map (\<lambda>c. (c_Chapter_Id c, c_Chapter_Name c))
                   (take (nat L) (drop (nat ((p - 1) * L)) ordered))"
  shows "getChapters db query_page query_limit =
           (200, ChapterPage rows
              \<lparr>total = Fin (real_of_int N), page = Fin (real_of_int p),
               limit = Fin (real_of_int L), totalPages = Fin (real_of_int T)\<rparr>) \<and>
         sorted (map c_Chapter_Name ordered) \<and> mset ordered = mset (chapters db) \<and>
         int (length rows) \<le> L \<and>
         L * (T - 1) < N \<and> N \<le> L * T \<and>
         (T < p \<longrightarrow> rows = [])"
proof -
  have L: "0 < L" "\<not> L < 0" using assms(5) by simp_all
  note r = page_in_range [OF assms(2,3,5,6,7)]
  have total: "Number (length (chapters db)) = Fin (real_of_int N)"
    using Number_exact [OF assms(8)] by (simp add: N_def)
  have pages: "Math_ceil (divide_number (Fin (real_of_int N)) (Fin (real_of_int L))) =
      Fin (real_of_int T)"
    unfolding T_def using assms(5,6,8) by (intro Math_ceil_divide) (simp_all add: N_def)
  have resp: "getChapters db query_page query_limit =
           (200, ChapterPage rows
              \<lparr>total = Fin (real_of_int N), page = Fin (real_of_int p),
               limit = Fin (real_of_int L), totalPages = Fin (real_of_int T)\<rparr>)"
    unfolding getChapters_def Let_def assms(1,4) r total pages LIMIT_OFFSET_def
    using L(2) by (simp add: rows_def ordered_def)
  have srt: "sorted (map c_Chapter_Name ordered)" "mset ordered = mset (chapters db)"
    by (simp_all add: ordered_def ORDER_BY_Chapter_Name_def)
  have len: "int (length rows) \<le> L" using L(1) by (simp add: rows_def)
  have beyond: "rows = []" if "T < p"
  proof -
    from that have "N \<le> (p - 1) * L" unfolding T_def by (rule beyond_last_page [OF L(1)])
    then have "length ordered \<le> nat ((p - 1) * L)"
      by (simp add: N_def ordered_def ORDER_BY_Chapter_Name_def)
    then show ?thesis by (simp add: rows_def)
  qed
  from resp srt len total_pages_bounds [OF L(1), of N] beyond show ?thesis
    by (simp add: T_def)
qed

lemma three_chapters_ordered:
  "ORDER_BY_Chapter_Name (chapters three_chapters) = [alpha_chapter, beta_chapter, gamma_chapter]"
  by (simp add: ORDER_BY_Chapter_Name_def three_chapters_def alpha_chapter_def beta_chapter_def
      gamma_chapter_def)

theorem getChapters_pagination_witness:
  "parseInt (ToString (Some ''2'')) = Fin 2 \<and> parseInt (ToString (Some ''3'')) = Fin 3 \<and>
   length (chapters three_chapters) = 3 \<and>
   getChapters three_chapters (Some ''2'') (Some ''2'') =
     (200, ChapterPage [(''zzzzzz'', ''Gamma'')]
             \<lparr>total = Fin 3, page = Fin 2, limit = Fin 2, totalPages = Fin 2\<rparr>) \<and>
   getChapters three_chapters (Some ''3'') (Some ''2'') =
     (200, ChapterPage [] \<lparr>total = Fin 3, page = Fin 3, limit = Fin 2, totalPages = Fin 2\<rparr>)"
proof -
  have h: "parseInt (ToString (Some ''2'')) = Fin (real_of_int 2)"
    and k: "parseInt (ToString (Some ''3'')) = Fin (real_of_int 3)"
    by (simp_all add: ToString_def parseInt_defaults)
  have n: "length (chapters three_chapters) = 3" by (simp add: three_chapters_def)
  have small: "int (length (chapters three_chapters)) < 2 ^ 53" by (simp add: n)
  from getChapters_pagination [OF h _ _ h _ _ _ small]
  have second: "getChapters three_chapters (Some ''2'') (Some ''2'') =
     (200, ChapterPage [(''zzzzzz'', ''Gamma'')]
             \<lparr>total = Fin 3, page = Fin 2, limit = Fin 2, totalPages = Fin 2\<rparr>)"
    by (simp add: three_chapters_ordered n gamma_chapter_def)
  from getChapters_pagination [OF k _ _ h _ _ _ small]
  have third: "getChapters three_chapters (Some ''3'') (Some ''2'') =
     (200, ChapterPage [] \<lparr>total = Fin 3, page = Fin 3, limit = Fin 2, totalPages = Fin 2\<rparr>)"
    by (simp add: n)
  from h k n second third show ?thesis by simp
qed

lemma fl_large:
  "fl 100000000000000000000 = Fin 100000000000000000000"
  "fl 99999999999999999999 = Fin 100000000000000000000"
  "fl 200000000000000000000 = Fin 200000000000000000000"
proof -
  show "fl 100000000000000000000 = Fin 100000000000000000000"
    using fl_binade [of 100000000000000000000 66] by (simp add: round_half_even_def)
  show "fl 99999999999999999999 = Fin 100000000000000000000"
    using fl_binade [of 99999999999999999999 66] by (simp add: round_half_even_def)
  show "fl 200000000000000000000 = Fin 200000000000000000000"
    using fl_binade [of 200000000000000000000 67] by (simp add: round_half_even_def)
qed

lemma parseInt_large: "parseInt ''100000000000000000000'' = Fin 100000000000000000000"
  by (simp add: parseInt_def isWhiteSpace_def isRadixDigit_def digitValue_def mathInt_def
      code_def fl_large)

text \<open>
  Without the bounds the statement fails: page \<open>100000000000000000000\<close> with limit 2 is
  a request with \<open>p \<ge> 1\<close> and \<open>L \<ge> 1\<close>, but its offset \<open>2 * 10^20\<close> is no 64-bit
  integer, and the answer is 500 instead of a page.
\<close>

theorem getChapters_large_page_counterexample:
  "parseInt (ToString (Some ''100000000000000000000'')) = Fin 100000000000000000000 \<and>
   parseInt (ToString (Some ''2'')) = Fin 2 \<and>
   getChapters three_chapters (Some ''100000000000000000000'') (Some ''2'') =
     (500, Error ''Failed to fetch chapters'')"
  by (simp add: getChapters_def Let_def ToString_def parseInt_large parseInt_defaults
      orElse_def fl_large bind_integer_def)

lemma parseInt_no_digit:
  assumes "\<forall>c \<in> set s. \<not> isRadixDigit 10 c"
  shows "parseInt s = NaN"
proof -
  define S0 where "S0 = dropWhile isWhiteSpace s"
  define S1 where "S1 = (if S0 \<noteq> [] \<and> (hd S0 = CHR ''+'' \<or> hd S0 = CHR ''-'') then tl S0 else S0)"
  have "set S0 \<subseteq> set s" unfolding S0_def by (rule set_dropWhileD [THEN subsetI])
  moreover have "set S1 \<subseteq> set S0" unfolding S1_def by (auto dest: list.set_sel(2))
  ultimately have none: "\<forall>c \<in> set S1. \<not> isRadixDigit 10 c" using assms by blast
  have zero: "isRadixDigit 10 CHR ''0''"
    by (simp add: isRadixDigit_def digitValue_def code_def)
  have nohex: "take 2 S1 \<noteq> ''0x''" "take 2 S1 \<noteq> ''0X''"
    using none zero by (cases S1; auto)+
  have "takeWhile (isRadixDigit 10) S1 = []"
    using none by (cases S1) auto
  then show ?thesis
    unfolding parseInt_def Let_def S0_def [symmetric] S1_def [symmetric]
    using nohex by simp
qed

lemma getChapters_status:
  "fst (getChapters db query_page query_limit) = 200 \<or>
   fst (getChapters db query_page query_limit) = 500"
  by (simp add: getChapters_def Let_def split: option.splits)

text \<open>
  Claim C10. The chapter list never answers 400: the status is 200, or 500 when limit or
  offset cannot be bound. A page parameter that is missing, that does not parse to a
  number (among others every text without a decimal digit), or that parses to 0 gives the
  answer of \<open>page=1\<close>; a limit parameter that is missing, does not parse, or parses to 0
  gives the answer of \<open>limit=50\<close>. So \<open>limit=0\<close> on the first page of a table below
  \<open>2^53\<close> rows returns the first 50 chapters by name at most, with \<open>limit = 50\<close> in the
  envelope. (A text with a numeric prefix, such as \<open>12abc\<close>, parses to that prefix.)
\<close>

theorem getChapters_defaults:
  "(fst (getChapters db query_page query_limit) = 200 \<or>
    fst (getChapters db query_page query_limit) = 500) \<and>
   (parseInt (ToString query_page) = NaN \<or> parseInt (ToString query_page) = Fin 0 \<longrightarrow>
      getChapters db query_page query_limit = getChapters db (Some ''1'') query_limit) \<and>
   (parseInt (ToString query_limit) = NaN \<or> parseInt (ToString query_limit) = Fin 0 \<longrightarrow>
      getChapters db query_page query_limit = getChapters db query_page (Some ''50'')) \<and>
   parseInt (ToString None) = NaN \<and>
   ((\<forall>c \<in> set s. \<not> isRadixDigit 10 c) \<longrightarrow> parseInt (ToString (Some s)) = NaN) \<and>
   parseInt (ToString (Some ''0'')) = Fin 0 \<and>
   (int (length (chapters db)) < 2 ^ 53 \<longrightarrow>
    getChapters db None (Some ''0'') =
     (200, ChapterPage
        (map (\<lambda>c. (c_Chapter_Id c, c_Chapter_Name c))
           (take 50 (ORDER_BY_Chapter_Name (chapters db))))
        \<lparr>total = Fin (real (length (chapters db))), page = Fin 1, limit = Fin 50,
         totalPages = Fin (real_of_int ((int (length (chapters db)) + 49) div 50))\<rparr>))"
proof -
  note status = getChapters_status [of db query_page query_limit]
  have page: "getChapters db query_page query_limit = getChapters db (Some ''1'') query_limit"
    if "parseInt (ToString query_page) = NaN \<or> parseInt (ToString query_page) = Fin 0"
    using orElse_falsy [OF that, of "Fin 1"]
    by (simp add: getChapters_def ToString_def parseInt_defaults orElse_def)
  have lim: "getChapters db query_page query_limit = getChapters db query_page (Some ''50'')"
    if "parseInt (ToString query_limit) = NaN \<or> parseInt (ToString query_limit) = Fin 0"
    using orElse_falsy [OF that, of "Fin 50"]
    by (simp add: getChapters_def ToString_def parseInt_defaults orElse_def)
  have missing: "parseInt (ToString None) = NaN"
    by (simp add: ToString_def parseInt_defaults)
  have nodigit: "parseInt (ToString (Some s)) = NaN" if "\<forall>c \<in> set s. \<not> isRadixDigit 10 c"
    using that by (simp add: ToString_def parseInt_no_digit)
  have zero: "parseInt (ToString (Some ''0'')) = Fin 0"
    by (simp add: ToString_def parseInt_defaults)
  have first: "getChapters db None (Some ''0'') =
     (200, ChapterPage
        (map (\<lambda>c. (c_Chapter_Id c, c_Chapter_Name c))
           (take 50 (ORDER_BY_Chapter_Name (chapters db))))
        \<lparr>total = Fin (real (length (chapters db))), page = Fin 1, limit = Fin 50,
         totalPages = Fin (real_of_int ((int (length (chapters db)) + 49) div 50))\<rparr>)"
    if small: "int (length (chapters db)) < 2 ^ 53"
  proof -
    have pages: "Math_ceil (divide_number (Fin (real (length (chapters db)))) (Fin 50)) =
        Fin (real_of_int ((int (length (chapters db)) + 49) div 50))"
      using Math_ceil_divide [of "int (length (chapters db))" 50] small by simp
    have zero_fl: "fl 0 = Fin 0" by (simp add: fl_def)
    have off: "times_number (fl 0) (Fin 50) = Fin 0"
      by (simp add: zero_fl)
    have b: "bind_integer (Fin 50) = Some 50" "bind_integer (Fin 0) = Some 0"
      by (simp_all add: bind_integer_def)
    show ?thesis
      unfolding getChapters_def Let_def missing zero
      by (simp add: orElse_def zero_fl off b Number_exact [OF small] pages [simplified]
          LIMIT_OFFSET_def)
  qed
  from status page lim missing nodigit zero first show ?thesis by blast
qed

theorem getChapters_defaults_witness:
  "parseInt (ToString (Some ''abc'')) = NaN \<and>
   getChapters three_chapters (Some ''abc'') (Some ''0'') =
     (200, ChapterPage [(''ssssss'', ''Alpha''), (''aaaaaa'', ''Beta''), (''zzzzzz'', ''Gamma'')]
             \<lparr>total = Fin 3, page = Fin 1, limit = Fin 50, totalPages = Fin 1\<rparr>)"
proof -
  have nd: "\<forall>c \<in> set ''abc''. \<not> isRadixDigit 10 c"
    by (simp add: isRadixDigit_def digitValue_def code_def)
  have n: "length (chapters three_chapters) = 3" by (simp add: three_chapters_def)
  have small: "int (length (chapters three_chapters)) < 2 ^ 53" by (simp add: n)
  note d = getChapters_defaults [of three_chapters "Some ''abc''" "Some ''0''" "''abc''"]
  from d nd have abc: "parseInt (ToString (Some ''abc'')) = NaN" by blast
  from d abc have "getChapters three_chapters (Some ''abc'') (Some ''0'') =
      getChapters three_chapters (Some ''1'') (Some ''0'')" by blast
  moreover from getChapters_defaults [of three_chapters None "Some ''0''" "''abc''"]
  have "getChapters three_chapters None (Some ''0'') =
      getChapters three_chapters (Some ''1'') (Some ''0'')" by blast
  moreover from getChapters_defaults [of three_chapters None "Some ''0''" "''abc''"] small
  have "getChapters three_chapters None (Some ''0'') =
     (200, ChapterPage [(''ssssss'', ''Alpha''), (''aaaaaa'', ''Beta''), (''zzzzzz'', ''Gamma'')]
             \<lparr>total = Fin 3, page = Fin 1, limit = Fin 50, totalPages = Fin 1\<rparr>)"
    by (simp add: three_chapters_ordered n alpha_chapter_def beta_chapter_def
        gamma_chapter_def)
  ultimately show ?thesis using abc by simp
qed

section \<open>User deletion\<close>

lemma matches_classify:
  "matches (classify identifier) identifier u =
     (if CHR ''@'' \<in> set identifier then u_Email u = identifier
      else if isUUID identifier then u_User_ID u = identifier
      else u_GoogleUserId u = identifier)"
  by (simp add: classify_def)

lemma deleteUser_cases:
  "deleteUser db identifier =
     (if \<not> (\<exists>u \<in> set (users db). matches (classify identifier) identifier u)
      then ((404, Error ''User not found''), db)
      else if \<exists>u \<in> set (users db). matches (classify identifier) identifier u \<and>
                (\<exists>m \<in> set (memberships db). m_User_ID m = u_User_ID u)
      then ((500, Message False ''Internal server error while deleting user''), db)
      else ((200, Message True ''User deleted successfully''),
            db\<lparr>users := filter (\<lambda>u. \<not> matches (classify identifier) identifier u) (users db)\<rparr>))"
  unfolding deleteUser_def Let_def rows_absent delete_users_def by simp

lemma classify_examples:
  "classify ''alice@example.com'' = ByEmail"
  "classify ''123e4567-e89b-12d3-A456-426614174000'' = ByUser_ID"
  "classify ''google2'' = ByGoogleUserId"
  by (simp_all add: classify_def isUUID_def isHex_def isRadixDigit_def digitValue_def code_def)

text \<open>
  Claim C9, as the code has it. The path identifier selects the column by its shape: the
  email when it contains \<open>@\<close>, else the opaque identifier when it has the UUID shape, else
  the provider id. When no user row has the identifier in that column the answer is 404
  with the body \<open>User not found\<close>, the same in the three cases, and the database is
  unchanged. When a row matches and no membership references a matching user, all matching
  rows are deleted and the answer is 200 with a success body. When a membership references
  a matching user, the foreign key of the memberships table rejects the delete: the answer
  is 500 and the database is unchanged.
\<close>

theorem deleteUser_by_shape:
  fixes db :: database and path :: string
  defines "selected \<equiv> (\<lambda>u. if CHR ''@'' \<in> set path then u_Email u = path
      else if isUUID path then u_User_ID u = path
      else u_GoogleUserId u = path)"
  shows "deleteUser db path =
     (if \<not> (\<exists>u \<in> set (users db). selected u) then ((404, Error ''User not found''), db)
      else if \<exists>u \<in> set (users db). selected u \<and>
                (\<exists>m \<in> set (memberships db). m_User_ID m = u_User_ID u)
      then ((500, Message False ''Internal server error while deleting user''), db)
      else ((200, Message True ''User deleted successfully''),
            db\<lparr>users := filter (\<lambda>u. \<not> selected u) (users db)\<rparr>))"
proof -
  have sel: "matches (classify path) path = selected"
    by (rule ext) (simp add: matches_classify selected_def)
  show ?thesis unfolding deleteUser_cases sel ..
qed

theorem deleteUser_by_shape_witness:
  "deleteUser three_users ''123e4567-e89b-12d3-A456-426614174000'' =
     ((200, Message True ''User deleted successfully''), three_users\<lparr>users := [alice, bob]\<rparr>) \<and>
   deleteUser three_users ''google2'' =
     ((200, Message True ''User deleted successfully''), three_users\<lparr>users := [alice, carol]\<rparr>) \<and>
   deleteUser three_users ''nobody@example.com'' = ((404, Error ''User not found''), three_users)"
  unfolding deleteUser_by_shape
  by (simp add: three_users_def alice_def bob_def carol_def alice_membership_def
      isUUID_def isHex_def isRadixDigit_def digitValue_def code_def)

text \<open>
  Without the condition on memberships the statement fails: alice is found by her email,
  but she has a membership, so her row is not deleted and the answer is not a success.
\<close>

theorem deleteUser_member_counterexample:
  "length (filter (matches (classify ''alice@example.com'') ''alice@example.com'')
     (users three_users)) = 1 \<and>
   deleteUser three_users ''alice@example.com'' =
     ((500, Message False ''Internal server error while deleting user''), three_users)"
  by (simp add: deleteUser_cases classify_examples three_users_def alice_def bob_def carol_def
      alice_membership_def)

end
